theory Spec2Isabelle
  imports Complex_Main "HOL-Library.Multiset" "HOL-Library.Sublist"
begin

section \<open>Data model (src/types/index.ts)\<close>

text \<open>
  The TypeScript interfaces become records. Several interfaces share field names
  (\<open>id\<close>, \<open>employeeId\<close>, \<open>date\<close>, \<open>amount\<close>, \<open>createdAt\<close>), so every field
  carries a prefix naming its interface: \<open>e_\<close> Employee, \<open>s_\<close> SalaryEntry,
  \<open>c_\<close> CreditEntry, \<open>p_\<close> PaymentRecord, \<open>n_\<close> the argument of
  \<open>addPaymentRecord\<close>, \<open>ps_\<close> PaymentSummary, \<open>r_\<close> a row sent to the credit table.

  Amounts and liters are the DECIMAL columns of the migration, read with \<open>Number(...)\<close>:
  JavaScript numbers, that is IEEE doubles. A finite double is held as the rational it
  denotes (0.30 is \<open>fl (3/10)\<close>, not \<open>3/10\<close>), and the program's \<open>+\<close>, \<open>-\<close> and \<open>/\<close>
  round (\<open>js_add\<close>, \<open>js_sub\<close>, \<open>js_div\<close> below). A date is the number
  \<open>new Date(date).getTime()\<close> that the code compares and sorts by (the columns are of
  SQL type DATE, so the string always parses).
\<close>

datatype AnimalType = cow | buffalo

record Employee =
  e_id :: string
  e_name :: string
  e_mobile :: string
  e_createdAt :: string

record SalaryEntry =
  s_id :: string
  s_employeeId :: string
  s_date :: int
  s_amount :: rat
  s_liters :: rat
  s_animalType :: AnimalType
  s_createdAt :: string

record CreditEntry =
  c_id :: string
  c_employeeId :: string
  c_date :: int
  c_itemName :: string
  c_amount :: rat
  c_createdAt :: string

record PaymentRecord =
  p_id :: string
  p_employeeId :: string
  p_salaryAmount :: rat
  p_creditDeducted :: rat
  p_netPaid :: rat
  p_paymentDate :: int
  p_createdAt :: string

text \<open>\<open>Omit<PaymentRecord, 'id' | 'createdAt'>\<close>, the argument of \<open>addPaymentRecord\<close>.\<close>

record NewPaymentRecord =
  n_employeeId :: string
  n_salaryAmount :: rat
  n_creditDeducted :: rat
  n_netPaid :: rat
  n_paymentDate :: int

section \<open>JavaScript numbers\<close>

text \<open>
  Rounding to the nearest double, ties to even: a positive \<open>x\<close> is scaled by a power of
  two into \<open>[2^52, 2^53)\<close>, rounded there to the nearest integer (to the even one when
  it lies halfway), and scaled back, which leaves a significand of 53 bits. The exponent
  is not bounded: sums and differences of doubles are rounded as IEEE 754 rounds them as
  long as nothing overflows, and the amounts of the DECIMAL(10,2) columns stay far below
  \<open>2^1024\<close>.
\<close>

definition round_half_even :: "rat \<Rightarrow> int" where
  "round_half_even q =
     (let f = \<lfloor>q\<rfloor>; r = q - of_int f
      in if r < 1 / 2 then f else if 1 / 2 < r then f + 1 else if even f then f else f + 1)"

function fl_pos :: "rat \<Rightarrow> rat" where
  "fl_pos x =
     (if x \<le> 0 then 0
      else if 2 ^ 53 \<le> x then 2 * fl_pos (x / 2)
      else if x < 2 ^ 52 then fl_pos (2 * x) / 2
      else of_int (round_half_even x))"
  by pat_completeness auto
termination
proof (relation "measures [\<lambda>x. nat \<lfloor>x / 2 ^ 53\<rfloor>, \<lambda>x. nat \<lfloor>2 ^ 52 / x\<rfloor>]")
  have half: "nat \<lfloor>y / 2\<rfloor> < nat \<lfloor>y\<rfloor>" if "1 \<le> y" for y :: rat
  proof -
    from that have one: "1 \<le> \<lfloor>y\<rfloor>" by simp
    then have "(1::rat) \<le> of_int \<lfloor>y\<rfloor>" by simp
    moreover have "y < of_int \<lfloor>y\<rfloor> + 1" by linarith
    ultimately have "y / 2 < of_int \<lfloor>y\<rfloor>" by linarith
    then have "\<lfloor>y / 2\<rfloor> < \<lfloor>y\<rfloor>" by (simp add: floor_less_iff)
    with one show ?thesis by linarith
  qed
  show "wf (measures [\<lambda>x::rat. nat \<lfloor>x / 2 ^ 53\<rfloor>, \<lambda>x. nat \<lfloor>2 ^ 52 / x\<rfloor>])"
    by simp
  show "(x / 2, x) \<in> measures [\<lambda>x. nat \<lfloor>x / 2 ^ 53\<rfloor>, \<lambda>x. nat \<lfloor>2 ^ 52 / x\<rfloor>]"
    if "\<not> x \<le> 0" and "2 ^ 53 \<le> x" for x :: rat
  proof -
    from that have "1 \<le> x / 2 ^ 53" by simp
    from half [OF this] have "nat \<lfloor>x / 2 / 2 ^ 53\<rfloor> < nat \<lfloor>x / 2 ^ 53\<rfloor>" by simp
    then show ?thesis by simp
  qed
  show "(2 * x, x) \<in> measures [\<lambda>x. nat \<lfloor>x / 2 ^ 53\<rfloor>, \<lambda>x. nat \<lfloor>2 ^ 52 / x\<rfloor>]"
    if "\<not> x \<le> 0" and "\<not> 2 ^ 53 \<le> x" and "x < 2 ^ 52" for x :: rat
  proof -
    from that have "1 \<le> 2 ^ 52 / x" by simp
    from half [OF this] have lt: "nat \<lfloor>2 ^ 52 / (2 * x)\<rfloor> < nat \<lfloor>2 ^ 52 / x\<rfloor>" by simp
    from that have "2 * x / 2 ^ 53 < 1" "0 \<le> 2 * x / 2 ^ 53" "x / 2 ^ 53 < 1" "0 \<le> x / 2 ^ 53"
      by simp_all
    then have "\<lfloor>2 * x / 2 ^ 53\<rfloor> = 0" "\<lfloor>x / 2 ^ 53\<rfloor> = 0"
      by (simp_all add: floor_eq_iff)
    with lt show ?thesis by simp
  qed
qed

declare fl_pos.simps [simp del]

definition fl :: "rat \<Rightarrow> rat" where
  "fl x = (if x < 0 then - fl_pos (- x) else fl_pos x)"

text \<open>\<open>a + b\<close> and \<open>a - b\<close> on numbers: the exact result, rounded once.\<close>

definition js_add :: "rat \<Rightarrow> rat \<Rightarrow> rat" where
  "js_add a b = fl (a + b)"

definition js_sub :: "rat \<Rightarrow> rat \<Rightarrow> rat" where
  "js_sub a b = fl (a - b)"

text \<open>
  The result of a JavaScript division. Only division can leave the finite numbers here:
  \<open>x / 0\<close> is \<open>Infinity\<close>, \<open>-Infinity\<close> or \<open>NaN\<close>, never an exception and never 0.
\<close>

datatype jsnum = Fin rat | PosInf | NegInf | NaN

definition js_div :: "rat \<Rightarrow> rat \<Rightarrow> jsnum" where
  "js_div a b =
     (if b = 0 then (if a = 0 then NaN else if 0 < a then PosInf else NegInf)
      else Fin (fl (a / b)))"

record PaymentSummary =
  ps_employeeId :: string
  ps_employeeName :: string
  ps_lastSalary :: rat
  ps_totalCreditSinceLastPayment :: rat
  ps_netPayable :: rat
  ps_salaryEntryCount :: nat
  ps_avgSalaryPerEntry :: jsnum
  ps_lastPaymentDate :: "int option"

section \<open>Component state (the hooks of src/hooks/useSupabaseData.ts)\<close>

text \<open>
  The lists held by the four hooks, and \<open>manualAdjustments\<close> read through
  \<open>parseFloat(manualAdjustments[id] || "0") || 0\<close>: the number the operator typed for
  an employee, 0 when the field is empty or does not parse. (A typed \<open>Infinity\<close> is the
  one number this leaves out; \<open>validateSettlement\<close> rejects it like any other amount
  above the cap or below 0.) After a settlement the handler clears the field, which reads
  as 0 again.
\<close>

record AppState =
  employees :: "Employee list"
  salaryEntries :: "SalaryEntry list"
  creditEntries :: "CreditEntry list"
  paymentRecords :: "PaymentRecord list"
  manualAdjustments :: "string \<Rightarrow> rat"

text \<open>The three hook calls of a settlement that write to the store.\<close>

datatype StoreCall =
    AddPaymentRecord NewPaymentRecord
  | RemoveSalaryEntry string
  | UpdateCreditEntries "CreditEntry list"

text \<open>
  What the component does not decide: today's date, the id and timestamp the database
  gives a new payment row, and whether the backend accepts a request (a rejected
  request makes the hook throw).
\<close>

record Env =
  today :: int
  newId :: string
  newCreatedAt :: string
  accepts :: "StoreCall \<Rightarrow> bool"

text \<open>
  The effect of each hook on the component state once the backend has accepted the
  request. \<open>updateCreditEntries\<close> sets the list it was given (\<open>setCreditEntries(entries)\<close>):
  the state below is the one after that call. The hook then awaits \<open>fetchCreditEntries\<close>,
  which reads the inserted rows back ordered by date descending, with the ids and
  timestamps the database gave them; that reload is not part of the state here, and
  the rows it reads are \<open>insertedRows\<close> below. A hook that throws leaves the state as it
  was.
\<close>

definition addPaymentRecord :: "Env \<Rightarrow> NewPaymentRecord \<Rightarrow> AppState \<Rightarrow> AppState" where
  "addPaymentRecord env record st =
     st\<lparr>paymentRecords :=
          \<lparr>p_id = newId env, p_employeeId = n_employeeId record,
           p_salaryAmount = n_salaryAmount record,
           p_creditDeducted = n_creditDeducted record, p_netPaid = n_netPaid record,
           p_paymentDate = n_paymentDate record, p_createdAt = newCreatedAt env\<rparr>
          # paymentRecords st\<rparr>"

definition removeSalaryEntry :: "string \<Rightarrow> AppState \<Rightarrow> AppState" where
  "removeSalaryEntry ident st =
     st\<lparr>salaryEntries := filter (\<lambda>entry. s_id entry \<noteq> ident) (salaryEntries st)\<rparr>"

definition updateCreditEntries :: "CreditEntry list \<Rightarrow> AppState \<Rightarrow> AppState" where
  "updateCreditEntries entries st = st\<lparr>creditEntries := entries\<rparr>"

text \<open>
  The rows \<open>updateCreditEntries\<close> inserts after it has deleted every row of the table:
  \<open>entries.map(entry => ({employee_id, date, item_name, amount}))\<close>. The database
  assigns \<open>id\<close> and \<open>created_at\<close> anew.
\<close>

record CreditRow =
  r_employee_id :: string
  r_date :: int
  r_item_name :: string
  r_amount :: rat

definition insertedRows :: "CreditEntry list \<Rightarrow> CreditRow list" where
  "insertedRows entries =
     map (\<lambda>entry. \<lparr>r_employee_id = c_employeeId entry, r_date = c_date entry,
                     r_item_name = c_itemName entry, r_amount = c_amount entry\<rparr>) entries"

section \<open>Aggregation (paymentSummary of src/pages/SettleSalary.tsx)\<close>

text \<open>\<open>reduce((total, entry) => total + entry.amount, 0)\<close>.\<close>

definition totalSalaryOf :: "SalaryEntry list \<Rightarrow> rat" where
  "totalSalaryOf entries = foldl (\<lambda>total entry. js_add total (s_amount entry)) 0 entries"

definition totalCreditOf :: "CreditEntry list \<Rightarrow> rat" where
  "totalCreditOf entries = foldl (\<lambda>total entry. js_add total (c_amount entry)) 0 entries"

text \<open>
  The payment records of the employee sorted by paymentDate descending (the sort of
  JavaScript is stable), element \<open>[0]\<close>; \<open>undefined\<close> on an empty list.
\<close>

definition lastPaymentRecord :: "AppState \<Rightarrow> string \<Rightarrow> PaymentRecord option" where
  "lastPaymentRecord st employeeId =
     (case sort_key (\<lambda>r. - p_paymentDate r)
             (filter (\<lambda>r. p_employeeId r = employeeId) (paymentRecords st)) of
        [] \<Rightarrow> None
      | r # _ \<Rightarrow> Some r)"


definition totalSalary :: "AppState \<Rightarrow> string \<Rightarrow> rat" where
  "totalSalary st employeeId =
     totalSalaryOf (filter (\<lambda>entry. s_employeeId entry = employeeId) (salaryEntries st))"

definition totalAvailableCredit :: "AppState \<Rightarrow> string \<Rightarrow> rat" where
  "totalAvailableCredit st employeeId =
     totalCreditOf (filter (\<lambda>entry. c_employeeId entry = employeeId) (creditEntries st))"


text \<open>
  The body of \<open>employees.map(employee => ...)\<close>. The field \<open>hasRecentActivity\<close>, which
  compares entry dates with the wall clock and is only displayed, is left out.
\<close>

definition summarize :: "AppState \<Rightarrow> Employee \<Rightarrow> PaymentSummary" where
  "summarize st employee =
     (let employeeSalaryEntries =
            filter (\<lambda>entry. s_employeeId entry = e_id employee) (salaryEntries st);
          total = totalSalary st (e_id employee);
          manualCredit = manualAdjustments st (e_id employee);
          netPayable = js_sub total manualCredit;
          salaryEntryCount = length employeeSalaryEntries;
          avgSalaryPerEntry =
            (if 0 < salaryEntryCount then js_div total (of_nat salaryEntryCount)
             else Fin 0)
      in \<lparr>ps_employeeId = e_id employee,
          ps_employeeName = e_name employee,
          ps_lastSalary = total,
          ps_totalCreditSinceLastPayment = totalAvailableCredit st (e_id employee),
          ps_netPayable = netPayable,
          ps_salaryEntryCount = salaryEntryCount,
          ps_avgSalaryPerEntry = avgSalaryPerEntry,
          ps_lastPaymentDate = map_option p_paymentDate (lastPaymentRecord st (e_id employee))\<rparr>)"

definition paymentSummary :: "AppState \<Rightarrow> PaymentSummary list" where
  "paymentSummary st = map (summarize st) (employees st)"

section \<open>Per-entry rate cells\<close>

text \<open>The Rate/L cell of the entries table of Salary10Day: \<open>entry.amount / entry.liters\<close>.\<close>

definition rateCell_Salary10Day :: "SalaryEntry \<Rightarrow> jsnum" where
  "rateCell_Salary10Day entry = js_div (s_amount entry) (s_liters entry)"

text \<open>
  The same cell in src/pages/Summary.tsx:
  \<open>entry.liters > 0 ? formatCurrency(entry.amount / entry.liters) : formatCurrency(0)\<close>.
\<close>

definition rateCell_Summary :: "SalaryEntry \<Rightarrow> jsnum" where
  "rateCell_Summary entry =
     (if 0 < s_liters entry then js_div (s_amount entry) (s_liters entry) else Fin 0)"

section \<open>Settlement (handleSettleSalary of src/pages/SettleSalary.tsx)\<close>

definition validateSettlement :: "string \<Rightarrow> rat \<Rightarrow> rat \<Rightarrow> string option" where
  "validateSettlement employeeId manualCredit availableCredit =
     (if manualCredit < 0 then Some ''Manual credit cannot be negative''
      else if availableCredit < manualCredit
        then Some ''Manual credit adjustment cannot exceed total available credit''
      else None)"

text \<open>
  The \<open>for\<close> loop over \<open>thisEmployeeEntries\<close>: the first argument is
  \<open>remainingCreditToRemove\<close>, the second the array \<open>updatedCreditEntries\<close> that the loop
  pushes onto.
\<close>

fun creditWalk :: "rat \<Rightarrow> CreditEntry list \<Rightarrow> CreditEntry list \<Rightarrow> CreditEntry list" where
  "creditWalk remaining updated [] = updated"
| "creditWalk remaining updated (entry # rest) =
     (if 0 < remaining then
        (if c_amount entry \<le> remaining
           then creditWalk (js_sub remaining (c_amount entry)) updated rest
         else creditWalk 0
                (updated @ [entry\<lparr>c_amount := js_sub (c_amount entry) remaining\<rparr>]) rest)
      else creditWalk remaining (updated @ [entry]) rest)"

text \<open>
  The recomputed collection: the other employees' entries first, then the walk over this
  employee's entries sorted by date ascending (a stable sort).
\<close>

definition updatedCreditEntries :: "AppState \<Rightarrow> string \<Rightarrow> rat \<Rightarrow> CreditEntry list" where
  "updatedCreditEntries st employeeId manualCredit =
     (let otherEmployeesEntries =
            filter (\<lambda>entry. c_employeeId entry \<noteq> employeeId) (creditEntries st);
          thisEmployeeEntries =
            sort_key c_date
              (filter (\<lambda>entry. c_employeeId entry = employeeId) (creditEntries st))
      in creditWalk manualCredit otherEmployeesEntries thisEmployeeEntries)"

text \<open>
  \<open>for (const salaryEntry of employeeSalaryEntries) await removeSalaryEntry(salaryEntry.id)\<close>:
  the calls issued so far and the state are threaded through; a rejected call ends the
  loop (\<open>False\<close>) by its exception.
\<close>

fun removeSalaryEntries ::
  "(StoreCall \<Rightarrow> bool) \<Rightarrow> SalaryEntry list \<Rightarrow> StoreCall list \<Rightarrow> AppState
     \<Rightarrow> bool \<times> StoreCall list \<times> AppState" where
  "removeSalaryEntries ok [] issued st = (True, issued, st)"
| "removeSalaryEntries ok (salaryEntry # rest) issued st =
     (if ok (RemoveSalaryEntry (s_id salaryEntry))
        then removeSalaryEntries ok rest
               (issued @ [RemoveSalaryEntry (s_id salaryEntry)])
               (removeSalaryEntry (s_id salaryEntry) st)
      else (False, issued @ [RemoveSalaryEntry (s_id salaryEntry)], st))"

datatype Outcome =
    NoSummary
  | ValidationError string
  | NoSalaryEntries
  | Settled
  | SettlementFailed

record Run =
  outcome :: Outcome
  calls :: "StoreCall list"
  final :: AppState

definition newPayment :: "Env \<Rightarrow> PaymentSummary \<Rightarrow> string \<Rightarrow> rat \<Rightarrow> NewPaymentRecord" where
  "newPayment env summary employeeId manualCredit =
     \<lparr>n_employeeId = employeeId,
      n_salaryAmount = ps_lastSalary summary,
      n_creditDeducted = manualCredit,
      n_netPaid = ps_netPayable summary,
      n_paymentDate = today env\<rparr>"

text \<open>The \<open>try\<close> block; every \<open>SettlementFailed\<close> is the \<open>catch\<close>.\<close>

definition settle :: "Env \<Rightarrow> AppState \<Rightarrow> PaymentSummary \<Rightarrow> string \<Rightarrow> rat \<Rightarrow> Run" where
  "settle env st summary employeeId manualCredit =
     (let payment = newPayment env summary employeeId manualCredit in
      if \<not> accepts env (AddPaymentRecord payment)
        then \<lparr>outcome = SettlementFailed, calls = [AddPaymentRecord payment], final = st\<rparr>
      else
        let st1 = addPaymentRecord env payment st;
            updated = updatedCreditEntries st employeeId manualCredit;
            employeeSalaryEntries =
              filter (\<lambda>entry. s_employeeId entry = employeeId) (salaryEntries st)
        in case removeSalaryEntries (accepts env) employeeSalaryEntries
                  [AddPaymentRecord payment] st1 of
             (False, issued, st2) \<Rightarrow>
               \<lparr>outcome = SettlementFailed, calls = issued, final = st2\<rparr>
           | (True, issued, st2) \<Rightarrow>
               if \<not> accepts env (UpdateCreditEntries updated)
                 then \<lparr>outcome = SettlementFailed,
                       calls = issued @ [UpdateCreditEntries updated], final = st2\<rparr>
               else
                 \<lparr>outcome = Settled,
                  calls = issued @ [UpdateCreditEntries updated],
                  final = (updateCreditEntries updated st2)
                            \<lparr>manualAdjustments :=
                               (manualAdjustments st2)(employeeId := 0)\<rparr>\<rparr>)"

definition handleSettleSalary :: "Env \<Rightarrow> AppState \<Rightarrow> string \<Rightarrow> string \<Rightarrow> Run" where
  "handleSettleSalary env st employeeId employeeName =
     (case find (\<lambda>s. ps_employeeId s = employeeId) (paymentSummary st) of
        None \<Rightarrow> \<lparr>outcome = NoSummary, calls = [], final = st\<rparr>
      | Some summary \<Rightarrow>
          (let manualCredit = manualAdjustments st employeeId in
           case validateSettlement employeeId manualCredit
                  (ps_totalCreditSinceLastPayment summary) of
             Some validationError \<Rightarrow>
               \<lparr>outcome = ValidationError validationError, calls = [], final = st\<rparr>
           | None \<Rightarrow>
               if ps_lastSalary summary \<le> 0
                 then \<lparr>outcome = NoSalaryEntries, calls = [], final = st\<rparr>
               else settle env st summary employeeId manualCredit))"

section \<open>The reallocation as the specification words it\<close>

text \<open>
  Section 4.2, step 3: "If remaining \<open>\<le>\<close> 0: keep the entry unchanged. Else if
  entry.amount \<open>\<le>\<close> remaining: drop the entry entirely; remaining -= entry.amount. Else:
  replace the entry with amount := entry.amount - remaining; set remaining = 0." The
  subtractions are those of the program's numbers.
\<close>

fun spec_walk :: "rat \<Rightarrow> CreditEntry list \<Rightarrow> CreditEntry list" where
  "spec_walk remaining [] = []"
| "spec_walk remaining (entry # rest) =
     (if remaining \<le> 0 then entry # spec_walk remaining rest
      else if c_amount entry \<le> remaining
        then spec_walk (js_sub remaining (c_amount entry)) rest
      else entry\<lparr>c_amount := js_sub (c_amount entry) remaining\<rparr> # spec_walk 0 rest)"

section \<open>A small dairy, for concrete runs\<close>

definition ex_env :: Env where
  "ex_env = \<lparr>today = 10, newId = ''p2'', newCreatedAt = ''t1'', accepts = (\<lambda>c. True)\<rparr>"

definition ex_credit :: "string \<Rightarrow> string \<Rightarrow> int \<Rightarrow> rat \<Rightarrow> CreditEntry" where
  "ex_credit ident employeeId date amount =
     \<lparr>c_id = ident, c_employeeId = employeeId, c_date = date, c_itemName = ''feed'',
      c_amount = amount, c_createdAt = ''t0''\<rparr>"

definition ex_salary :: "string \<Rightarrow> string \<Rightarrow> int \<Rightarrow> rat \<Rightarrow> rat \<Rightarrow> SalaryEntry" where
  "ex_salary ident employeeId date amount liters =
     \<lparr>s_id = ident, s_employeeId = employeeId, s_date = date, s_amount = amount,
      s_liters = liters, s_animalType = cow, s_createdAt = ''t0''\<rparr>"

text \<open>
  Two employees. Asha (\<open>e1\<close>) has earned 200 + 100, owes 50, 30 and 20 from days 1, 2
  and 3, was last paid on day 2, and the operator has typed a deduction of 60 for her.
  The lists are in the order the hooks fetch them, newest first.
\<close>

definition ex_state :: AppState where
  "ex_state =
     \<lparr>employees =
        [\<lparr>e_id = ''e1'', e_name = ''Asha'', e_mobile = ''9000000001'', e_createdAt = ''t0''\<rparr>,
         \<lparr>e_id = ''e2'', e_name = ''Ravi'', e_mobile = ''9000000002'', e_createdAt = ''t0''\<rparr>],
      salaryEntries =
        [ex_salary ''s1'' ''e1'' 6 200 20, ex_salary ''s2'' ''e2'' 5 150 15,
         ex_salary ''s3'' ''e1'' 5 100 10],
      creditEntries =
        [ex_credit ''c3'' ''e1'' 3 20, ex_credit ''c2'' ''e1'' 2 30,
         ex_credit ''c4'' ''e2'' 2 40, ex_credit ''c1'' ''e1'' 1 50],
      paymentRecords =
        [\<lparr>p_id = ''p1'', p_employeeId = ''e1'', p_salaryAmount = 500, p_creditDeducted = 0,
          p_netPaid = 500, p_paymentDate = 2, p_createdAt = ''t0''\<rparr>],
      manualAdjustments = (\<lambda>employeeId. 0)(''e1'' := 60)\<rparr>"




text \<open>The state after Asha's settlement, with the operator typing 60 for her again.\<close>

definition ex_state_again :: AppState where
  "ex_state_again =
     (final (handleSettleSalary ex_env ex_state ''e1'' ''Asha''))
       \<lparr>manualAdjustments := (\<lambda>employeeId. 0)(''e1'' := 60)\<rparr>"

section \<open>Rounding\<close>

lemma round_half_even_int [simp]: "round_half_even (of_int n) = n"
  by (simp add: round_half_even_def)

lemma round_half_even_ge: "\<lfloor>q\<rfloor> \<le> round_half_even q"
  by (simp add: round_half_even_def Let_def)

lemma round_half_even_le: "round_half_even q \<le> \<lfloor>q\<rfloor> + 1"
  by (simp add: round_half_even_def Let_def)

lemma fl_pos_nonpos: "x \<le> 0 \<Longrightarrow> fl_pos x = 0"
  by (simp add: fl_pos.simps)

lemma fl_pos_positive: "0 < x \<Longrightarrow> 0 < fl_pos x"
proof (induction x rule: fl_pos.induct)
  case (1 x)
  show ?case
  proof (cases "2 ^ 53 \<le> x")
    case True
    with "1.prems" "1.IH"(1) have "0 < fl_pos (x / 2)" by simp
    with True "1.prems" show ?thesis by (subst fl_pos.simps) simp
  next
    case big: False
    show ?thesis
    proof (cases "x < 2 ^ 52")
      case True
      with big "1.prems" "1.IH"(2) have "0 < fl_pos (2 * x)" by simp
      with True big "1.prems" show ?thesis by (subst fl_pos.simps) simp
    next
      case False
      then have "(2::rat) ^ 52 \<le> x" by simp
      then have "(2::int) ^ 52 \<le> \<lfloor>x\<rfloor>" by (simp add: le_floor_iff)
      moreover have "(0::int) < 2 ^ 52" by simp
      ultimately have "0 < round_half_even x" using round_half_even_ge [of x] by linarith
      with False big "1.prems" show ?thesis by (subst fl_pos.simps) simp
    qed
  qed
qed

lemma fl_pos_double: "0 < x \<Longrightarrow> fl_pos (2 * x) = 2 * fl_pos x"
proof -
  assume pos: "0 < x"
  show ?thesis
  proof (cases "2 ^ 53 \<le> 2 * x")
    case True
    with pos show ?thesis by (subst fl_pos.simps) simp
  next
    case False
    then have "x < 2 ^ 52" by simp
    moreover from this have "\<not> 2 ^ 53 \<le> x" by simp
    ultimately show ?thesis using pos by (subst (2) fl_pos.simps) simp
  qed
qed

lemma fl_pos_whole:
  "0 < x \<Longrightarrow> x \<in> \<int> \<Longrightarrow> x \<le> 2 ^ 53 \<Longrightarrow> fl_pos x = x"
proof (induction x rule: fl_pos.induct)
  case (1 x)
  show ?case
  proof (cases "2 ^ 53 \<le> x")
    case True
    with "1.prems" have x: "x = 2 ^ 53" by simp
    have "fl_pos (2 ^ 52) = of_int (round_half_even (of_int (2 ^ 52)))"
      by (subst fl_pos.simps) simp
    then have "fl_pos (2 ^ 52) = 2 ^ 52" by (simp only: round_half_even_int) simp
    moreover have "fl_pos (2 ^ 53) = 2 * fl_pos (2 ^ 52)"
      by (subst fl_pos.simps) simp
    ultimately show ?thesis by (simp add: x)
  next
    case big: False
    show ?thesis
    proof (cases "x < 2 ^ 52")
      case True
      from "1.prems"(2) have "2 * x \<in> \<int>" by simp
      moreover from True have "2 * x \<le> 2 ^ 53" by simp
      ultimately have "fl_pos (2 * x) = 2 * x"
        using "1.IH"(2) [OF _ big True] "1.prems"(1) by simp
      with True big "1.prems" show ?thesis by (subst fl_pos.simps) simp
    next
      case False
      from "1.prems"(2) obtain n where n: "x = of_int n" by (auto elim: Ints_cases)
      with False big "1.prems" show ?thesis by (subst fl_pos.simps) simp
    qed
  qed
qed

lemma fl_pos_idem: "fl_pos (fl_pos x) = fl_pos x"
proof (induction x rule: fl_pos.induct)
  case (1 x)
  show ?case
  proof (cases "x \<le> 0")
    case True
    then show ?thesis by (simp add: fl_pos_nonpos)
  next
    case pos: False
    show ?thesis
    proof (cases "2 ^ 53 \<le> x")
      case True
      then have e: "fl_pos x = 2 * fl_pos (x / 2)" using pos by (subst fl_pos.simps) simp
      from pos have "0 < fl_pos (x / 2)" by (simp add: fl_pos_positive)
      from fl_pos_double [OF this] "1.IH"(1) [OF pos True] show ?thesis by (simp add: e)
    next
      case big: False
      show ?thesis
      proof (cases "x < 2 ^ 52")
        case True
        then have e: "fl_pos (2 * x) = 2 * fl_pos x" using pos by (simp add: fl_pos_double)
        from pos have "0 < fl_pos x" by (simp add: fl_pos_positive)
        from fl_pos_double [OF this] "1.IH"(2) [OF pos big True] show ?thesis by (simp add: e)
      next
        case False
        then have e: "fl_pos x = of_int (round_half_even x)"
          using pos big by (subst fl_pos.simps) simp
        from False have "(2::int) ^ 52 \<le> \<lfloor>x\<rfloor>" by (simp add: le_floor_iff)
        moreover have "(0::int) < 2 ^ 52" by simp
        ultimately have lo: "0 < round_half_even x" using round_half_even_ge [of x] by linarith
        from big have "x < 2 ^ 53" by simp
        then have "\<lfloor>x\<rfloor> < 2 ^ 53" by (simp add: floor_less_iff)
        with round_half_even_le [of x] have "round_half_even x \<le> 2 ^ 53" by linarith
        then have hi: "(of_int (round_half_even x) :: rat) \<le> 2 ^ 53"
          by (metis of_int_le_iff of_int_numeral of_int_power)
        have whole: "(of_int (round_half_even x) :: rat) \<in> \<int>" by simp
        from lo have "(0::rat) < of_int (round_half_even x)" by simp
        from fl_pos_whole [OF this whole hi] show ?thesis unfolding e .
      qed
    qed
  qed
qed

lemma fl_zero [simp]: "fl 0 = 0"
  by (simp add: fl_def fl_pos_nonpos)

lemma fl_positive: "0 < x \<Longrightarrow> 0 < fl x"
  by (simp add: fl_def fl_pos_positive)

lemma fl_idem [simp]: "fl (fl x) = fl x"
proof (cases "x < 0")
  case True
  then have "0 < fl_pos (- x)" by (simp add: fl_pos_positive)
  with True show ?thesis by (simp add: fl_def fl_pos_idem)
next
  case False
  then have "0 \<le> fl_pos x"
    using fl_pos_positive [of x] fl_pos_nonpos [of x] by (cases "x = 0") auto
  with False show ?thesis by (simp add: fl_def fl_pos_idem not_less)
qed

lemma fl_whole: "x \<in> \<int> \<Longrightarrow> \<bar>x\<bar> \<le> 2 ^ 53 \<Longrightarrow> fl x = x"
proof -
  assume i: "x \<in> \<int>" and b: "\<bar>x\<bar> \<le> 2 ^ 53"
  consider "x < 0" | "x = 0" | "0 < x" by linarith
  then show ?thesis
  proof cases
    case 1
    with i b have "fl_pos (- x) = - x" by (intro fl_pos_whole) auto
    with 1 show ?thesis by (simp add: fl_def)
  next
    case 2
    then show ?thesis by simp
  next
    case 3
    with i b have "fl_pos x = x" by (intro fl_pos_whole) auto
    with 3 show ?thesis by (simp add: fl_def)
  qed
qed


lemma fl_numeral: "numeral n \<le> (2::rat) ^ 53 \<Longrightarrow> fl (numeral n) = numeral n"
  by (rule fl_whole) simp_all




lemma js_sub_zero_right: "js_sub a 0 = fl a"
  by (simp add: js_sub_def)

lemma js_sub_positive: "b < a \<Longrightarrow> 0 < js_sub a b"
  by (simp add: js_sub_def fl_positive)


section \<open>Sums and the credit walk\<close>

lemma total_is_double:
  "fl (foldl (\<lambda>total entry. js_add total (f entry)) 0 xs)
     = foldl (\<lambda>total entry. js_add total (f entry)) 0 xs"
  by (induction xs rule: rev_induct) (simp_all add: js_add_def)

lemma totalSalaryOf_is_double: "fl (totalSalaryOf xs) = totalSalaryOf xs"
  unfolding totalSalaryOf_def by (rule total_is_double)





lemma creditWalk_acc: "creditWalk r acc es = acc @ creditWalk r [] es"
proof (induction es arbitrary: r acc)
  case Nil
  show ?case by simp
next
  case (Cons e es)
  note ih = Cons.IH
  show ?case
    using ih [of "js_sub r (c_amount e)" acc]
      ih [of 0 "acc @ [e\<lparr>c_amount := js_sub (c_amount e) r\<rparr>]"]
      ih [of 0 "[e\<lparr>c_amount := js_sub (c_amount e) r\<rparr>]"]
      ih [of r "acc @ [e]"] ih [of r "[e]"]
    by simp
qed

lemma creditWalk_nonpos: "r \<le> 0 \<Longrightarrow> creditWalk r acc es = acc @ es"
  by (induction es arbitrary: acc) simp_all


lemma creditWalk_employeeId:
  "x \<in> set (creditWalk r [] es) \<Longrightarrow> \<exists>y \<in> set es. c_employeeId x = c_employeeId y"
proof (induction es arbitrary: r)
  case Nil
  then show ?case by simp
next
  case (Cons e es)
  show ?case
  proof (cases "0 < r")
    case False
    with Cons.prems show ?thesis by (simp add: creditWalk_nonpos) blast
  next
    case pos: True
    show ?thesis
    proof (cases "c_amount e \<le> r")
      case True
      with pos Cons.prems have "x \<in> set (creditWalk (js_sub r (c_amount e)) [] es)" by simp
      from Cons.IH [OF this] show ?thesis by auto
    next
      case False
      with pos Cons.prems
      have "x = e\<lparr>c_amount := js_sub (c_amount e) r\<rparr> \<or> x \<in> set es"
        by (simp add: creditWalk_nonpos)
      then show ?thesis by auto
    qed
  qed
qed

lemma creditWalk_positive:
  "\<forall>y \<in> set es. 0 < c_amount y \<Longrightarrow> x \<in> set (creditWalk r [] es) \<Longrightarrow> 0 < c_amount x"
proof (induction es arbitrary: r)
  case Nil
  then show ?case by simp
next
  case (Cons e es)
  show ?case
  proof (cases "0 < r")
    case False
    with Cons.prems show ?thesis by (simp add: creditWalk_nonpos) blast
  next
    case pos: True
    show ?thesis
    proof (cases "c_amount e \<le> r")
      case True
      with pos Cons.prems have "x \<in> set (creditWalk (js_sub r (c_amount e)) [] es)" by simp
      with Cons.IH Cons.prems(1) show ?thesis by simp
    next
      case False
      with pos Cons.prems(2)
      have "x = e\<lparr>c_amount := js_sub (c_amount e) r\<rparr> \<or> x \<in> set es"
        by (simp add: creditWalk_nonpos)
      moreover from False have "0 < js_sub (c_amount e) r" by (simp add: js_sub_positive)
      ultimately show ?thesis using Cons.prems(1) by auto
    qed
  qed
qed

section \<open>The salary-entry loop and the summary lookup\<close>

lemma filter_removed:
  "filter (\<lambda>x. s_id x \<notin> s_id ` set es) (filter (\<lambda>entry. s_id entry \<noteq> s_id e) xs)
     = filter (\<lambda>x. s_id x \<notin> s_id ` set (e # es)) xs"
  by (induction xs) auto

lemma removeSalaryEntries_done:
  "removeSalaryEntries ok es issued st = (True, tr, st') \<Longrightarrow>
     tr = issued @ map (\<lambda>e. RemoveSalaryEntry (s_id e)) es
     \<and> (\<forall>e \<in> set es. ok (RemoveSalaryEntry (s_id e)))
     \<and> st' = st\<lparr>salaryEntries := filter (\<lambda>x. s_id x \<notin> s_id ` set es) (salaryEntries st)\<rparr>"
proof (induction es arbitrary: issued st)
  case Nil
  then show ?case by simp
next
  case (Cons e es)
  let ?c = "RemoveSalaryEntry (s_id e)"
  from Cons.prems have ok: "ok ?c"
    by (cases "ok ?c") simp_all
  with Cons.prems
  have "removeSalaryEntries ok es (issued @ [?c]) (removeSalaryEntry (s_id e) st) = (True, tr, st')"
    by simp
  note ih = Cons.IH [OF this]
  have "st' = st\<lparr>salaryEntries := filter (\<lambda>x. s_id x \<notin> s_id ` set (e # es)) (salaryEntries st)\<rparr>"
    using ih filter_removed [of es e "salaryEntries st"] by (simp add: removeSalaryEntry_def)
  with ih ok show ?case by simp
qed

lemma removeSalaryEntries_failed:
  "removeSalaryEntries ok es issued st = (False, tr, st') \<Longrightarrow>
     \<exists>ys. tr = issued @ ys \<and> ys \<noteq> []
        \<and> prefix ys (map (\<lambda>e. RemoveSalaryEntry (s_id e)) es)
        \<and> \<not> ok (last ys) \<and> (\<forall>c \<in> set (butlast ys). ok c)"
proof (induction es arbitrary: issued st)
  case Nil
  then show ?case by simp
next
  case (Cons e es)
  let ?c = "RemoveSalaryEntry (s_id e)"
  show ?case
  proof (cases "ok ?c")
    case False
    with Cons.prems have "tr = issued @ [?c]" by simp
    with False show ?thesis by simp
  next
    case True
    with Cons.prems
    have "removeSalaryEntries ok es (issued @ [?c]) (removeSalaryEntry (s_id e) st) = (False, tr, st')"
      by simp
    from Cons.IH [OF this] obtain ys where ys:
      "tr = (issued @ [?c]) @ ys" "ys \<noteq> []"
      "prefix ys (map (\<lambda>e. RemoveSalaryEntry (s_id e)) es)"
      "\<not> ok (last ys)" "\<forall>c \<in> set (butlast ys). ok c"
      by blast
    have "tr = issued @ (?c # ys) \<and> ?c # ys \<noteq> []
        \<and> prefix (?c # ys) (map (\<lambda>e. RemoveSalaryEntry (s_id e)) (e # es))
        \<and> \<not> ok (last (?c # ys)) \<and> (\<forall>c \<in> set (butlast (?c # ys)). ok c)"
      using ys True by simp
    then show ?thesis by blast
  qed
qed

lemma removeSalaryEntries_ok:
  "\<forall>e \<in> set es. ok (RemoveSalaryEntry (s_id e)) \<Longrightarrow>
     fst (removeSalaryEntries ok es issued st)"
  by (induction es arbitrary: issued st) simp_all

lemma summarize_fields:
  "ps_employeeId (summarize st emp) = e_id emp"
  "ps_lastSalary (summarize st emp) = totalSalary st (e_id emp)"
  "ps_totalCreditSinceLastPayment (summarize st emp) = totalAvailableCredit st (e_id emp)"
  "ps_netPayable (summarize st emp) = js_sub (totalSalary st (e_id emp)) (manualAdjustments st (e_id emp))"
  by (simp_all add: summarize_def Let_def)

lemma find_in_summaries:
  "find (\<lambda>s. ps_employeeId s = employeeId) (map (summarize st) emps)
     = map_option (summarize st) (find (\<lambda>e. e_id e = employeeId) emps)"
  by (induction emps) (simp_all add: summarize_fields)

lemma find_employee:
  "employeeId \<in> e_id ` set emps \<Longrightarrow>
     \<exists>emp. find (\<lambda>e. e_id e = employeeId) emps = Some emp \<and> e_id emp = employeeId"
  by (induction emps) auto

lemma find_no_employee:
  "employeeId \<notin> e_id ` set emps \<Longrightarrow> find (\<lambda>e. e_id e = employeeId) emps = None"
  by (induction emps) auto

lemma find_summary:
  assumes "employeeId \<in> e_id ` set (employees st)"
  shows "\<exists>s. find (\<lambda>s. ps_employeeId s = employeeId) (paymentSummary st) = Some s
           \<and> ps_employeeId s = employeeId
           \<and> ps_lastSalary s = totalSalary st employeeId
           \<and> ps_totalCreditSinceLastPayment s = totalAvailableCredit st employeeId
           \<and> ps_netPayable s = js_sub (totalSalary st employeeId) (manualAdjustments st employeeId)"
proof -
  from find_employee [OF assms] obtain emp where
    emp: "find (\<lambda>e. e_id e = employeeId) (employees st) = Some emp" "e_id emp = employeeId"
    by blast
  have "find (\<lambda>s. ps_employeeId s = employeeId) (paymentSummary st) = Some (summarize st emp)"
    by (simp add: paymentSummary_def find_in_summaries emp(1))
  with emp(2) show ?thesis by (simp add: summarize_fields)
qed

lemma find_no_summary:
  "employeeId \<notin> e_id ` set (employees st) \<Longrightarrow>
     find (\<lambda>s. ps_employeeId s = employeeId) (paymentSummary st) = None"
  by (simp add: paymentSummary_def find_in_summaries find_no_employee)

section \<open>The shape of a run\<close>

lemma rejected_run:
  assumes "\<not> (employeeId \<in> e_id ` set (employees st)
             \<and> 0 \<le> manualAdjustments st employeeId
             \<and> manualAdjustments st employeeId \<le> totalAvailableCredit st employeeId
             \<and> 0 < totalSalary st employeeId)"
  shows "handleSettleSalary env st employeeId employeeName =
           \<lparr>outcome =
              (if employeeId \<notin> e_id ` set (employees st) then NoSummary
               else if manualAdjustments st employeeId < 0
                 then ValidationError ''Manual credit cannot be negative''
               else if totalAvailableCredit st employeeId < manualAdjustments st employeeId
                 then ValidationError
                        ''Manual credit adjustment cannot exceed total available credit''
               else NoSalaryEntries),
            calls = [], final = st\<rparr>"
proof (cases "employeeId \<in> e_id ` set (employees st)")
  case False
  then show ?thesis by (simp add: handleSettleSalary_def find_no_summary)
next
  case True
  from find_summary [OF True] obtain s where
    s: "find (\<lambda>s. ps_employeeId s = employeeId) (paymentSummary st) = Some s"
       "ps_lastSalary s = totalSalary st employeeId"
       "ps_totalCreditSinceLastPayment s = totalAvailableCredit st employeeId"
    by blast
  from assms True show ?thesis
    by (auto simp add: handleSettleSalary_def s validateSettlement_def Let_def)
qed

lemma accepted_run:
  assumes "employeeId \<in> e_id ` set (employees st)"
    and "0 \<le> manualAdjustments st employeeId"
    and "manualAdjustments st employeeId \<le> totalAvailableCredit st employeeId"
    and "0 < totalSalary st employeeId"
  shows "\<exists>s. handleSettleSalary env st employeeId employeeName =
               settle env st s employeeId (manualAdjustments st employeeId)
           \<and> newPayment env s employeeId (manualAdjustments st employeeId) =
               \<lparr>n_employeeId = employeeId,
                n_salaryAmount = totalSalary st employeeId,
                n_creditDeducted = manualAdjustments st employeeId,
                n_netPaid = js_sub (totalSalary st employeeId) (manualAdjustments st employeeId),
                n_paymentDate = today env\<rparr>"
proof -
  from find_summary [OF assms(1)] obtain s where
    s: "find (\<lambda>s. ps_employeeId s = employeeId) (paymentSummary st) = Some s"
       "ps_lastSalary s = totalSalary st employeeId"
       "ps_totalCreditSinceLastPayment s = totalAvailableCredit st employeeId"
       "ps_netPayable s = js_sub (totalSalary st employeeId) (manualAdjustments st employeeId)"
    by blast
  have "handleSettleSalary env st employeeId employeeName =
          settle env st s employeeId (manualAdjustments st employeeId)"
    using assms(2-4) by (simp add: handleSettleSalary_def s validateSettlement_def Let_def)
  moreover have "newPayment env s employeeId (manualAdjustments st employeeId) =
               \<lparr>n_employeeId = employeeId,
                n_salaryAmount = totalSalary st employeeId,
                n_creditDeducted = manualAdjustments st employeeId,
                n_netPaid = js_sub (totalSalary st employeeId) (manualAdjustments st employeeId),
                n_paymentDate = today env\<rparr>"
    by (simp add: newPayment_def s)
  ultimately show ?thesis by blast
qed

lemma settle_settled:
  assumes "outcome (settle env st s employeeId manualCredit) = Settled"
  shows "calls (settle env st s employeeId manualCredit) =
           AddPaymentRecord (newPayment env s employeeId manualCredit)
           # map (\<lambda>e. RemoveSalaryEntry (s_id e))
               (filter (\<lambda>entry. s_employeeId entry = employeeId) (salaryEntries st))
           @ [UpdateCreditEntries (updatedCreditEntries st employeeId manualCredit)]"
    and "final (settle env st s employeeId manualCredit) =
           (addPaymentRecord env (newPayment env s employeeId manualCredit) st)
             \<lparr>salaryEntries :=
                filter (\<lambda>x. s_id x \<notin> s_id `
                          set (filter (\<lambda>entry. s_employeeId entry = employeeId) (salaryEntries st)))
                  (salaryEntries st),
              creditEntries := updatedCreditEntries st employeeId manualCredit,
              manualAdjustments := (manualAdjustments st)(employeeId := 0)\<rparr>"
    and "\<forall>c \<in> set (calls (settle env st s employeeId manualCredit)). accepts env c"
proof -
  let ?pay = "newPayment env s employeeId manualCredit"
  let ?sal = "filter (\<lambda>entry. s_employeeId entry = employeeId) (salaryEntries st)"
  let ?upd = "updatedCreditEntries st employeeId manualCredit"
  obtain b tr st2 where
    loop: "removeSalaryEntries (accepts env) ?sal [AddPaymentRecord ?pay]
             (addPaymentRecord env ?pay st) = (b, tr, st2)"
    by (cases "removeSalaryEntries (accepts env) ?sal [AddPaymentRecord ?pay]
             (addPaymentRecord env ?pay st)") blast
  from assms have a1: "accepts env (AddPaymentRecord ?pay)"
    by (cases "accepts env (AddPaymentRecord ?pay)") (simp_all add: settle_def Let_def)
  from assms a1 loop have b: "b"
    by (cases b) (simp_all add: settle_def Let_def)
  from assms a1 loop b have a3: "accepts env (UpdateCreditEntries ?upd)"
    by (cases "accepts env (UpdateCreditEntries ?upd)") (simp_all add: settle_def Let_def)
  from loop b have fin: "tr = [AddPaymentRecord ?pay] @ map (\<lambda>e. RemoveSalaryEntry (s_id e)) ?sal"
    "\<forall>e \<in> set ?sal. accepts env (RemoveSalaryEntry (s_id e))"
    "st2 = (addPaymentRecord env ?pay st)\<lparr>salaryEntries :=
              filter (\<lambda>x. s_id x \<notin> s_id ` set ?sal)
                (salaryEntries (addPaymentRecord env ?pay st))\<rparr>"
    using removeSalaryEntries_done [of "accepts env" ?sal "[AddPaymentRecord ?pay]"
        "addPaymentRecord env ?pay st" tr st2]
    by simp_all
  have run: "settle env st s employeeId manualCredit =
      \<lparr>outcome = Settled, calls = tr @ [UpdateCreditEntries ?upd],
       final = (updateCreditEntries ?upd st2)
                 \<lparr>manualAdjustments := (manualAdjustments st2)(employeeId := 0)\<rparr>\<rparr>"
    using a1 a3 loop b by (simp add: settle_def Let_def)
  show "calls (settle env st s employeeId manualCredit) =
           AddPaymentRecord ?pay # map (\<lambda>e. RemoveSalaryEntry (s_id e)) ?sal
           @ [UpdateCreditEntries ?upd]"
    by (simp add: run fin(1))
  show "final (settle env st s employeeId manualCredit) =
           (addPaymentRecord env ?pay st)
             \<lparr>salaryEntries := filter (\<lambda>x. s_id x \<notin> s_id ` set ?sal) (salaryEntries st),
              creditEntries := ?upd,
              manualAdjustments := (manualAdjustments st)(employeeId := 0)\<rparr>"
    by (simp add: run fin(3) updateCreditEntries_def addPaymentRecord_def)
  show "\<forall>c \<in> set (calls (settle env st s employeeId manualCredit)). accepts env c"
    using a1 a3 fin(2) by (auto simp add: run fin(1))
qed

lemma settle_accepted:
  assumes "\<forall>c. accepts env c"
  shows "outcome (settle env st s employeeId manualCredit) = Settled"
proof -
  let ?pay = "newPayment env s employeeId manualCredit"
  let ?sal = "filter (\<lambda>entry. s_employeeId entry = employeeId) (salaryEntries st)"
  have "fst (removeSalaryEntries (accepts env) ?sal [AddPaymentRecord ?pay]
             (addPaymentRecord env ?pay st))"
    using assms by (simp add: removeSalaryEntries_ok)
  then obtain tr st2 where
    "removeSalaryEntries (accepts env) ?sal [AddPaymentRecord ?pay]
             (addPaymentRecord env ?pay st) = (True, tr, st2)"
    by (cases "removeSalaryEntries (accepts env) ?sal [AddPaymentRecord ?pay]
             (addPaymentRecord env ?pay st)") simp
  with assms show ?thesis by (simp add: settle_def Let_def)
qed

lemma settle_failed:
  assumes "outcome (settle env st s employeeId manualCredit) \<noteq> Settled"
  shows "outcome (settle env st s employeeId manualCredit) = SettlementFailed"
    and "calls (settle env st s employeeId manualCredit) \<noteq> []"
    and "prefix (calls (settle env st s employeeId manualCredit))
           (AddPaymentRecord (newPayment env s employeeId manualCredit)
            # map (\<lambda>e. RemoveSalaryEntry (s_id e))
                (filter (\<lambda>entry. s_employeeId entry = employeeId) (salaryEntries st))
            @ [UpdateCreditEntries (updatedCreditEntries st employeeId manualCredit)])"
    and "\<not> accepts env (last (calls (settle env st s employeeId manualCredit)))"
    and "\<forall>c \<in> set (butlast (calls (settle env st s employeeId manualCredit))). accepts env c"
proof -
  let ?pay = "newPayment env s employeeId manualCredit"
  let ?sal = "filter (\<lambda>entry. s_employeeId entry = employeeId) (salaryEntries st)"
  let ?upd = "updatedCreditEntries st employeeId manualCredit"
  let ?rm = "map (\<lambda>e. RemoveSalaryEntry (s_id e)) ?sal"
  let ?r = "settle env st s employeeId manualCredit"
  obtain b tr st2 where
    loop: "removeSalaryEntries (accepts env) ?sal [AddPaymentRecord ?pay]
             (addPaymentRecord env ?pay st) = (b, tr, st2)"
    by (cases "removeSalaryEntries (accepts env) ?sal [AddPaymentRecord ?pay]
             (addPaymentRecord env ?pay st)") blast
  have "outcome ?r = SettlementFailed \<and> calls ?r \<noteq> []
      \<and> prefix (calls ?r) (AddPaymentRecord ?pay # ?rm @ [UpdateCreditEntries ?upd])
      \<and> \<not> accepts env (last (calls ?r))
      \<and> (\<forall>c \<in> set (butlast (calls ?r)). accepts env c)"
  proof (cases "accepts env (AddPaymentRecord ?pay)")
    case False
    then show ?thesis by (simp add: settle_def Let_def)
  next
    case a1: True
    show ?thesis
    proof (cases b)
      case False
      with loop have loop': "removeSalaryEntries (accepts env) ?sal [AddPaymentRecord ?pay]
             (addPaymentRecord env ?pay st) = (False, tr, st2)"
        by simp
      from removeSalaryEntries_failed [OF loop']
      obtain ys where ys: "tr = [AddPaymentRecord ?pay] @ ys" "ys \<noteq> []"
        "prefix ys ?rm" "\<not> accepts env (last ys)" "\<forall>c \<in> set (butlast ys). accepts env c"
        by blast
      have r: "?r = \<lparr>outcome = SettlementFailed, calls = AddPaymentRecord ?pay # ys, final = st2\<rparr>"
        using a1 loop False ys(1) by (simp add: settle_def Let_def)
      from ys(3) have "prefix ys (?rm @ [UpdateCreditEntries ?upd])"
        by (rule prefix_prefix)
      with ys a1 show ?thesis by (simp add: r)
    next
      case True
      with loop have fin: "tr = [AddPaymentRecord ?pay] @ ?rm"
        "\<forall>e \<in> set ?sal. accepts env (RemoveSalaryEntry (s_id e))"
        using removeSalaryEntries_done [of "accepts env" ?sal "[AddPaymentRecord ?pay]"
            "addPaymentRecord env ?pay st" tr st2]
        by simp_all
      from assms a1 loop True have a3: "\<not> accepts env (UpdateCreditEntries ?upd)"
        by (cases "accepts env (UpdateCreditEntries ?upd)") (simp_all add: settle_def Let_def)
      have r: "?r = \<lparr>outcome = SettlementFailed,
                     calls = AddPaymentRecord ?pay # ?rm @ [UpdateCreditEntries ?upd],
                     final = st2\<rparr>"
        using a1 a3 loop True fin(1) by (simp add: settle_def Let_def)
      from a1 a3 fin(2) show ?thesis
        by (auto simp add: r butlast_append)
    qed
  qed
  then show "outcome ?r = SettlementFailed" "calls ?r \<noteq> []"
    "prefix (calls ?r) (AddPaymentRecord ?pay # ?rm @ [UpdateCreditEntries ?upd])"
    "\<not> accepts env (last (calls ?r))"
    "\<forall>c \<in> set (butlast (calls ?r)). accepts env c"
    by blast+
qed

lemma settled_run:
  assumes "outcome (handleSettleSalary env st employeeId employeeName) = Settled"
  shows "employeeId \<in> e_id ` set (employees st)"
    and "0 \<le> manualAdjustments st employeeId"
    and "manualAdjustments st employeeId \<le> totalAvailableCredit st employeeId"
    and "0 < totalSalary st employeeId"
    and "calls (handleSettleSalary env st employeeId employeeName) =
           AddPaymentRecord
             \<lparr>n_employeeId = employeeId,
              n_salaryAmount = totalSalary st employeeId,
              n_creditDeducted = manualAdjustments st employeeId,
              n_netPaid = js_sub (totalSalary st employeeId) (manualAdjustments st employeeId),
              n_paymentDate = today env\<rparr>
           # map (\<lambda>e. RemoveSalaryEntry (s_id e))
               (filter (\<lambda>entry. s_employeeId entry = employeeId) (salaryEntries st))
           @ [UpdateCreditEntries
                (updatedCreditEntries st employeeId (manualAdjustments st employeeId))]"
    and "salaryEntries (final (handleSettleSalary env st employeeId employeeName)) =
           filter (\<lambda>x. s_id x \<notin> s_id `
                     set (filter (\<lambda>entry. s_employeeId entry = employeeId) (salaryEntries st)))
             (salaryEntries st)"
    and "creditEntries (final (handleSettleSalary env st employeeId employeeName)) =
           updatedCreditEntries st employeeId (manualAdjustments st employeeId)"
    and "employees (final (handleSettleSalary env st employeeId employeeName)) = employees st"
    and "manualAdjustments (final (handleSettleSalary env st employeeId employeeName)) =
           (manualAdjustments st)(employeeId := 0)"
    and "\<forall>c \<in> set (calls (handleSettleSalary env st employeeId employeeName)). accepts env c"
proof -
  let ?r = "handleSettleSalary env st employeeId employeeName"
  have elig: "employeeId \<in> e_id ` set (employees st)
             \<and> 0 \<le> manualAdjustments st employeeId
             \<and> manualAdjustments st employeeId \<le> totalAvailableCredit st employeeId
             \<and> 0 < totalSalary st employeeId"
  proof (rule ccontr)
    assume n: "\<not> (employeeId \<in> e_id ` set (employees st)
             \<and> 0 \<le> manualAdjustments st employeeId
             \<and> manualAdjustments st employeeId \<le> totalAvailableCredit st employeeId
             \<and> 0 < totalSalary st employeeId)"
    have "outcome ?r \<noteq> Settled"
      unfolding rejected_run [OF n] by simp
    with assms show False by simp
  qed
  then show "employeeId \<in> e_id ` set (employees st)"
    "0 \<le> manualAdjustments st employeeId"
    "manualAdjustments st employeeId \<le> totalAvailableCredit st employeeId"
    "0 < totalSalary st employeeId"
    by simp_all
  with accepted_run [of employeeId st env employeeName] obtain s where
    s: "?r = settle env st s employeeId (manualAdjustments st employeeId)"
    and pay: "newPayment env s employeeId (manualAdjustments st employeeId) =
               \<lparr>n_employeeId = employeeId,
                n_salaryAmount = totalSalary st employeeId,
                n_creditDeducted = manualAdjustments st employeeId,
                n_netPaid = js_sub (totalSalary st employeeId) (manualAdjustments st employeeId),
                n_paymentDate = today env\<rparr>"
    by blast
  from assms have st: "outcome (settle env st s employeeId (manualAdjustments st employeeId)) = Settled"
    by (simp add: s)
  note facts = settle_settled [OF st]
  show "calls ?r =
           AddPaymentRecord
             \<lparr>n_employeeId = employeeId,
              n_salaryAmount = totalSalary st employeeId,
              n_creditDeducted = manualAdjustments st employeeId,
              n_netPaid = js_sub (totalSalary st employeeId) (manualAdjustments st employeeId),
              n_paymentDate = today env\<rparr>
           # map (\<lambda>e. RemoveSalaryEntry (s_id e))
               (filter (\<lambda>entry. s_employeeId entry = employeeId) (salaryEntries st))
           @ [UpdateCreditEntries
                (updatedCreditEntries st employeeId (manualAdjustments st employeeId))]"
    unfolding s facts(1) pay by simp
  show "salaryEntries (final ?r) =
           filter (\<lambda>x. s_id x \<notin> s_id `
                     set (filter (\<lambda>entry. s_employeeId entry = employeeId) (salaryEntries st)))
             (salaryEntries st)"
    unfolding s facts(2) by simp
  show "creditEntries (final ?r) =
           updatedCreditEntries st employeeId (manualAdjustments st employeeId)"
    unfolding s facts(2) by simp
  show "employees (final ?r) = employees st"
    unfolding s facts(2) by (simp add: addPaymentRecord_def)
  show "manualAdjustments (final ?r) = (manualAdjustments st)(employeeId := 0)"
    unfolding s facts(2) by simp
  show "\<forall>c \<in> set (calls ?r). accepts env c"
    unfolding s using facts(3) by simp
qed

lemma accepted_settles:
  assumes "employeeId \<in> e_id ` set (employees st)"
    and "0 \<le> manualAdjustments st employeeId"
    and "manualAdjustments st employeeId \<le> totalAvailableCredit st employeeId"
    and "0 < totalSalary st employeeId"
    and "\<forall>c. accepts env c"
  shows "outcome (handleSettleSalary env st employeeId employeeName) = Settled"
proof -
  from accepted_run [OF assms(1-4), of env employeeName] obtain s where
    "handleSettleSalary env st employeeId employeeName =
       settle env st s employeeId (manualAdjustments st employeeId)"
    by blast
  with settle_accepted [OF assms(5)] show ?thesis by simp
qed

lemma run_prefix:
  "prefix (calls (handleSettleSalary env st employeeId employeeName))
     (AddPaymentRecord
        \<lparr>n_employeeId = employeeId,
         n_salaryAmount = totalSalary st employeeId,
         n_creditDeducted = manualAdjustments st employeeId,
         n_netPaid = js_sub (totalSalary st employeeId) (manualAdjustments st employeeId),
         n_paymentDate = today env\<rparr>
      # map (\<lambda>e. RemoveSalaryEntry (s_id e))
          (filter (\<lambda>entry. s_employeeId entry = employeeId) (salaryEntries st))
      @ [UpdateCreditEntries
           (updatedCreditEntries st employeeId (manualAdjustments st employeeId))])"
proof (cases "employeeId \<in> e_id ` set (employees st)
             \<and> 0 \<le> manualAdjustments st employeeId
             \<and> manualAdjustments st employeeId \<le> totalAvailableCredit st employeeId
             \<and> 0 < totalSalary st employeeId")
  case False
  show ?thesis unfolding rejected_run [OF False] by simp
next
  case True
  let ?r = "handleSettleSalary env st employeeId employeeName"
  from True accepted_run [of employeeId st env employeeName] obtain s where
    s: "?r = settle env st s employeeId (manualAdjustments st employeeId)"
    and pay: "newPayment env s employeeId (manualAdjustments st employeeId) =
               \<lparr>n_employeeId = employeeId,
                n_salaryAmount = totalSalary st employeeId,
                n_creditDeducted = manualAdjustments st employeeId,
                n_netPaid = js_sub (totalSalary st employeeId) (manualAdjustments st employeeId),
                n_paymentDate = today env\<rparr>"
    by blast
  show ?thesis
  proof (cases "outcome ?r = Settled")
    case True
    from settled_run(5) [OF True] show ?thesis by simp
  next
    case False
    then have "outcome (settle env st s employeeId (manualAdjustments st employeeId)) \<noteq> Settled"
      by (simp add: s)
    from settle_failed(3) [OF this] show ?thesis
      unfolding s pay .
  qed
qed

lemma run_awaits:
  "\<forall>c \<in> set (butlast (calls (handleSettleSalary env st employeeId employeeName))). accepts env c"
proof (cases "employeeId \<in> e_id ` set (employees st)
             \<and> 0 \<le> manualAdjustments st employeeId
             \<and> manualAdjustments st employeeId \<le> totalAvailableCredit st employeeId
             \<and> 0 < totalSalary st employeeId")
  case False
  show ?thesis unfolding rejected_run [OF False] by simp
next
  case True
  let ?r = "handleSettleSalary env st employeeId employeeName"
  from True accepted_run [of employeeId st env employeeName] obtain s where
    s: "?r = settle env st s employeeId (manualAdjustments st employeeId)"
    by blast
  show ?thesis
  proof (cases "outcome ?r = Settled")
    case True
    from settled_run(10) [OF True] show ?thesis
      by (meson in_set_butlastD)
  next
    case False
    then have "outcome (settle env st s employeeId (manualAdjustments st employeeId)) \<noteq> Settled"
      by (simp add: s)
    from settle_failed(5) [OF this] show ?thesis
      unfolding s .
  qed
qed

lemma update_call:
  assumes "UpdateCreditEntries u \<in> set (calls (handleSettleSalary env st employeeId employeeName))"
  shows "u = updatedCreditEntries st employeeId (manualAdjustments st employeeId)"
    and "0 \<le> manualAdjustments st employeeId"
    and "manualAdjustments st employeeId \<le> totalAvailableCredit st employeeId"
proof -
  from assms run_prefix [of env st employeeId employeeName]
  have "UpdateCreditEntries u \<in> set
     (AddPaymentRecord
        \<lparr>n_employeeId = employeeId,
         n_salaryAmount = totalSalary st employeeId,
         n_creditDeducted = manualAdjustments st employeeId,
         n_netPaid = js_sub (totalSalary st employeeId) (manualAdjustments st employeeId),
         n_paymentDate = today env\<rparr>
      # map (\<lambda>e. RemoveSalaryEntry (s_id e))
          (filter (\<lambda>entry. s_employeeId entry = employeeId) (salaryEntries st))
      @ [UpdateCreditEntries
           (updatedCreditEntries st employeeId (manualAdjustments st employeeId))])"
    using set_mono_prefix by blast
  then show "u = updatedCreditEntries st employeeId (manualAdjustments st employeeId)"
    by auto
  have "employeeId \<in> e_id ` set (employees st)
             \<and> 0 \<le> manualAdjustments st employeeId
             \<and> manualAdjustments st employeeId \<le> totalAvailableCredit st employeeId
             \<and> 0 < totalSalary st employeeId"
  proof (rule ccontr)
    assume n: "\<not> (employeeId \<in> e_id ` set (employees st)
             \<and> 0 \<le> manualAdjustments st employeeId
             \<and> manualAdjustments st employeeId \<le> totalAvailableCredit st employeeId
             \<and> 0 < totalSalary st employeeId)"
    from assms show False unfolding rejected_run [OF n] by simp
  qed
  then show "0 \<le> manualAdjustments st employeeId"
    "manualAdjustments st employeeId \<le> totalAvailableCredit st employeeId"
    by simp_all
qed

section \<open>The recomputed credit collection\<close>

lemma updated_split:
  "updatedCreditEntries st employeeId manualCredit =
     filter (\<lambda>entry. c_employeeId entry \<noteq> employeeId) (creditEntries st)
     @ creditWalk manualCredit []
         (sort_key c_date (filter (\<lambda>entry. c_employeeId entry = employeeId) (creditEntries st)))"
  unfolding updatedCreditEntries_def Let_def by (rule creditWalk_acc)

lemma walk_keeps_employee:
  assumes "x \<in> set (creditWalk r []
                      (sort_key c_date (filter (\<lambda>entry. c_employeeId entry = employeeId) ces)))"
  shows "c_employeeId x = employeeId"
proof -
  from creditWalk_employeeId [OF assms] obtain y where
    "y \<in> set (sort_key c_date (filter (\<lambda>entry. c_employeeId entry = employeeId) ces))"
    "c_employeeId x = c_employeeId y"
    by blast
  then show ?thesis by simp
qed

lemma updated_this_employee:
  "filter (\<lambda>entry. c_employeeId entry = employeeId)
     (updatedCreditEntries st employeeId manualCredit) =
   creditWalk manualCredit []
     (sort_key c_date (filter (\<lambda>entry. c_employeeId entry = employeeId) (creditEntries st)))"
proof -
  have "filter (\<lambda>entry. c_employeeId entry = employeeId)
          (creditWalk manualCredit []
            (sort_key c_date (filter (\<lambda>entry. c_employeeId entry = employeeId) (creditEntries st))))
        = creditWalk manualCredit []
            (sort_key c_date (filter (\<lambda>entry. c_employeeId entry = employeeId) (creditEntries st)))"
  proof (rule filter_True, rule ballI)
    fix x
    assume "x \<in> set (creditWalk manualCredit []
            (sort_key c_date (filter (\<lambda>entry. c_employeeId entry = employeeId) (creditEntries st))))"
    from walk_keeps_employee [OF this] show "c_employeeId x = employeeId" .
  qed
  then show ?thesis by (simp add: updated_split)
qed

lemma updated_other_employees:
  "filter (\<lambda>entry. c_employeeId entry \<noteq> employeeId)
     (updatedCreditEntries st employeeId manualCredit) =
   filter (\<lambda>entry. c_employeeId entry \<noteq> employeeId) (creditEntries st)"
proof -
  have "filter (\<lambda>entry. c_employeeId entry \<noteq> employeeId)
          (creditWalk manualCredit []
            (sort_key c_date (filter (\<lambda>entry. c_employeeId entry = employeeId) (creditEntries st))))
        = []"
  proof (rule filter_False, rule ballI)
    fix x
    assume "x \<in> set (creditWalk manualCredit []
            (sort_key c_date (filter (\<lambda>entry. c_employeeId entry = employeeId) (creditEntries st))))"
    from walk_keeps_employee [OF this] show "\<not> c_employeeId x \<noteq> employeeId" by simp
  qed
  then show ?thesis by (simp add: updated_split)
qed



lemma updated_positive:
  assumes "\<forall>y \<in> set (creditEntries st). 0 < c_amount y"
    and "x \<in> set (updatedCreditEntries st employeeId manualCredit)"
  shows "0 < c_amount x"
proof -
  let ?own = "sort_key c_date (filter (\<lambda>entry. c_employeeId entry = employeeId) (creditEntries st))"
  have own: "\<forall>y \<in> set ?own. 0 < c_amount y" using assms(1) by simp
  from assms(2) consider "x \<in> set (creditEntries st)" | "x \<in> set (creditWalk manualCredit [] ?own)"
    unfolding updated_split by auto
  then show ?thesis
  proof cases
    case 1
    with assms(1) show ?thesis by simp
  next
    case 2
    from creditWalk_positive [OF own 2] show ?thesis .
  qed
qed

lemma mset_filter_split: "mset (filter (\<lambda>x. \<not> P x) xs) + mset (filter P xs) = mset xs"
  by (induction xs) simp_all

lemma updated_zero:
  "mset (updatedCreditEntries st employeeId 0) = mset (creditEntries st)"
proof -
  have "mset (updatedCreditEntries st employeeId 0) =
          mset (filter (\<lambda>entry. c_employeeId entry \<noteq> employeeId) (creditEntries st))
          + mset (filter (\<lambda>entry. c_employeeId entry = employeeId) (creditEntries st))"
    by (simp add: updated_split creditWalk_nonpos)
  also have "\<dots> = mset (creditEntries st)"
    by (rule mset_filter_split)
  finally show ?thesis .
qed

section \<open>Values of the examples\<close>









section \<open>Claims\<close>




lemmas js_eval = js_add_def js_sub_def fl_numeral

lemma creditWalk_spec: "creditWalk remaining [] entries = spec_walk remaining entries"
proof (induction entries arbitrary: remaining)
  case Nil
  show ?case by simp
next
  case (Cons entry rest)
  show ?case
  proof (cases "0 < remaining")
    case False
    then have "remaining \<le> 0" by simp
    then show ?thesis
      using creditWalk_acc [of remaining "[entry]" rest] Cons.IH [of remaining] by simp
  next
    case True
    then show ?thesis
      using creditWalk_acc [of 0 "[entry\<lparr>c_amount := js_sub (c_amount entry) remaining\<rparr>]" rest]
        Cons.IH [of "js_sub remaining (c_amount entry)"] Cons.IH [of 0]
      by simp
  qed
qed

text \<open>
  C2. The part of the recomputed collection that belongs to the employee is the walk of
  the specification (\<open>spec_walk\<close>: keep when remaining \<open>\<le>\<close> 0, drop and decrement when
  amount \<open>\<le>\<close> remaining, otherwise reduce by remaining and set remaining to 0) over the
  employee's entries sorted ascending by date, started with remaining = D. In particular,
  when the employee's entries are three entries dated \<open>d1 < d2 < d3\<close> with amounts 50, 30
  and 20 (in any order in the collection) and \<open>D = 60\<close>, the result for the employee is
  exactly the second entry with amount 20 followed by the third, untouched.
\<close>

theorem credit_reallocation_oldest_first:
  "filter (\<lambda>entry. c_employeeId entry = employeeId)
     (updatedCreditEntries st employeeId manualCredit) =
   spec_walk manualCredit
     (sort_key c_date (filter (\<lambda>entry. c_employeeId entry = employeeId) (creditEntries st)))
   \<and> sorted (map c_date
        (sort_key c_date (filter (\<lambda>entry. c_employeeId entry = employeeId) (creditEntries st))))
   \<and> (mset (filter (\<lambda>entry. c_employeeId entry = employeeId) (creditEntries st)) = {#e1, e2, e3#}
        \<and> c_date e1 < c_date e2 \<and> c_date e2 < c_date e3
        \<and> c_amount e1 = 50 \<and> c_amount e2 = 30 \<and> c_amount e3 = 20
      \<longrightarrow> filter (\<lambda>entry. c_employeeId entry = employeeId)
            (updatedCreditEntries st employeeId 60) = [e2\<lparr>c_amount := 20\<rparr>, e3])"
proof (intro conjI impI)
  let ?own = "filter (\<lambda>entry. c_employeeId entry = employeeId) (creditEntries st)"
  show general: "filter (\<lambda>entry. c_employeeId entry = employeeId)
       (updatedCreditEntries st employeeId manualCredit) =
     spec_walk manualCredit (sort_key c_date ?own)" for manualCredit
    by (simp add: updated_this_employee creditWalk_spec)
  show "sorted (map c_date (sort_key c_date ?own))"
    by (rule sorted_sort_key)
  assume h: "mset ?own = {#e1, e2, e3#}
        \<and> c_date e1 < c_date e2 \<and> c_date e2 < c_date e3
        \<and> c_amount e1 = 50 \<and> c_amount e2 = 30 \<and> c_amount e3 = 20"
  then have m: "mset ?own = mset [e1, e2, e3]" by simp
  then have "set ?own = {e1, e2, e3}"
    by (metis list.simps(15) mset_eq_setD set_empty2 empty_set)
  with h have inj: "inj_on c_date (set ?own)"
    by (auto simp add: inj_on_def)
  have srt: "sorted (map c_date [e1, e2, e3])" using h by simp
  have "sort_key c_date ?own = [e1, e2, e3]"
    using m inj srt by (rule sort_key_inj_key_eq)
  moreover have "js_sub 60 50 = 10" "js_sub 30 10 = 20"
    by (simp_all add: js_sub_def fl_numeral)
  ultimately show "filter (\<lambda>entry. c_employeeId entry = employeeId)
            (updatedCreditEntries st employeeId 60) = [e2\<lparr>c_amount := 20\<rparr>, e3]"
    using h by (simp add: general)
qed

theorem credit_reallocation_oldest_first_witness:
  "mset (filter (\<lambda>entry. c_employeeId entry = ''e1'') (creditEntries ex_state)) =
     {#ex_credit ''c1'' ''e1'' 1 50, ex_credit ''c2'' ''e1'' 2 30, ex_credit ''c3'' ''e1'' 3 20#}
   \<and> c_date (ex_credit ''c1'' ''e1'' 1 50) < c_date (ex_credit ''c2'' ''e1'' 2 30)
   \<and> c_date (ex_credit ''c2'' ''e1'' 2 30) < c_date (ex_credit ''c3'' ''e1'' 3 20)
   \<and> c_amount (ex_credit ''c1'' ''e1'' 1 50) = 50
   \<and> c_amount (ex_credit ''c2'' ''e1'' 2 30) = 30
   \<and> c_amount (ex_credit ''c3'' ''e1'' 3 20) = 20
   \<and> filter (\<lambda>entry. c_employeeId entry = ''e1'') (updatedCreditEntries ex_state ''e1'' 60) =
       [ex_credit ''c2'' ''e1'' 2 20, ex_credit ''c3'' ''e1'' 3 20]"
proof -
  have h: "mset (filter (\<lambda>entry. c_employeeId entry = ''e1'') (creditEntries ex_state)) =
     {#ex_credit ''c1'' ''e1'' 1 50, ex_credit ''c2'' ''e1'' 2 30, ex_credit ''c3'' ''e1'' 3 20#}
   \<and> c_date (ex_credit ''c1'' ''e1'' 1 50) < c_date (ex_credit ''c2'' ''e1'' 2 30)
   \<and> c_date (ex_credit ''c2'' ''e1'' 2 30) < c_date (ex_credit ''c3'' ''e1'' 3 20)
   \<and> c_amount (ex_credit ''c1'' ''e1'' 1 50) = 50
   \<and> c_amount (ex_credit ''c2'' ''e1'' 2 30) = 30
   \<and> c_amount (ex_credit ''c3'' ''e1'' 3 20) = 20"
    by (simp add: ex_state_def ex_credit_def)
  from credit_reallocation_oldest_first
    [of "''e1''" ex_state 60 "ex_credit ''c1'' ''e1'' 1 50" "ex_credit ''c2'' ''e1'' 2 30"
        "ex_credit ''c3'' ''e1'' 3 20"] h
  have "filter (\<lambda>entry. c_employeeId entry = ''e1'') (updatedCreditEntries ex_state ''e1'' 60) =
       [(ex_credit ''c2'' ''e1'' 2 30)\<lparr>c_amount := 20\<rparr>, ex_credit ''c3'' ''e1'' 3 20]"
    by blast
  moreover have "(ex_credit ''c2'' ''e1'' 2 30)\<lparr>c_amount := 20\<rparr> = ex_credit ''c2'' ''e1'' 2 20"
    by (simp add: ex_credit_def)
  ultimately show ?thesis using h by simp
qed

text \<open>
  C3. When the typed deduction is negative, or exceeds the employee's total available
  credit, or the employee's salary total is not positive, the settlement issues no store
  call at all and leaves the state as it was: no payment record, no salary entry removed,
  the credit entries not replaced.
\<close>

theorem validation_failure_writes_nothing:
  assumes "manualAdjustments st employeeId < 0
         \<or> totalAvailableCredit st employeeId < manualAdjustments st employeeId
         \<or> totalSalary st employeeId \<le> 0"
  shows "calls (handleSettleSalary env st employeeId employeeName) = []
       \<and> final (handleSettleSalary env st employeeId employeeName) = st
       \<and> outcome (handleSettleSalary env st employeeId employeeName) \<noteq> Settled
       \<and> outcome (handleSettleSalary env st employeeId employeeName) \<noteq> SettlementFailed"
proof -
  from assms have "\<not> (employeeId \<in> e_id ` set (employees st)
             \<and> 0 \<le> manualAdjustments st employeeId
             \<and> manualAdjustments st employeeId \<le> totalAvailableCredit st employeeId
             \<and> 0 < totalSalary st employeeId)"
    by auto
  from rejected_run [OF this, of env employeeName] show ?thesis by simp
qed

theorem validation_failure_writes_nothing_witness:
  "totalAvailableCredit (ex_state\<lparr>manualAdjustments := (\<lambda>employeeId. 150)\<rparr>) ''e1''
     < manualAdjustments (ex_state\<lparr>manualAdjustments := (\<lambda>employeeId. 150)\<rparr>) ''e1''
   \<and> calls (handleSettleSalary ex_env (ex_state\<lparr>manualAdjustments := (\<lambda>employeeId. 150)\<rparr>)
              ''e1'' ''Asha'') = []
   \<and> final (handleSettleSalary ex_env (ex_state\<lparr>manualAdjustments := (\<lambda>employeeId. 150)\<rparr>)
              ''e1'' ''Asha'') = ex_state\<lparr>manualAdjustments := (\<lambda>employeeId. 150)\<rparr>
   \<and> manualAdjustments (ex_state\<lparr>manualAdjustments := (\<lambda>employeeId. - 5)\<rparr>) ''e1'' < 0
   \<and> calls (handleSettleSalary ex_env (ex_state\<lparr>manualAdjustments := (\<lambda>employeeId. - 5)\<rparr>)
              ''e1'' ''Asha'') = []
   \<and> totalSalary (ex_state\<lparr>salaryEntries := []\<rparr>) ''e1'' \<le> 0
   \<and> calls (handleSettleSalary ex_env (ex_state\<lparr>salaryEntries := []\<rparr>) ''e1'' ''Asha'') = []"
proof -
  let ?over = "ex_state\<lparr>manualAdjustments := (\<lambda>employeeId. 150)\<rparr>"
  let ?neg = "ex_state\<lparr>manualAdjustments := (\<lambda>employeeId. - 5)\<rparr>"
  let ?none = "ex_state\<lparr>salaryEntries := []\<rparr>"
  have c: "totalAvailableCredit ?over ''e1'' = 100"
    by (simp add: ex_state_def ex_credit_def totalAvailableCredit_def totalCreditOf_def js_eval)
  have h1: "totalAvailableCredit ?over ''e1'' < manualAdjustments ?over ''e1''"
    unfolding c by simp
  have h2: "manualAdjustments ?neg ''e1'' < 0"
    by simp
  have h3: "totalSalary ?none ''e1'' \<le> 0"
    by (simp add: totalSalary_def totalSalaryOf_def js_eval)
  have r1: "calls (handleSettleSalary ex_env ?over ''e1'' ''Asha'') = []
          \<and> final (handleSettleSalary ex_env ?over ''e1'' ''Asha'') = ?over"
    using validation_failure_writes_nothing [of ?over "''e1''" ex_env "''Asha''"] h1 by blast
  have r2: "calls (handleSettleSalary ex_env ?neg ''e1'' ''Asha'') = []"
    using validation_failure_writes_nothing [of ?neg "''e1''" ex_env "''Asha''"] h2 by blast
  have r3: "calls (handleSettleSalary ex_env ?none ''e1'' ''Asha'') = []"
    using validation_failure_writes_nothing [of ?none "''e1''" ex_env "''Asha''"] h3 by blast
  from h1 r1 h2 r2 h3 r3 show ?thesis by blast
qed

lemma ex_state_run:
  "''e1'' \<in> e_id ` set (employees ex_state)"
  "totalSalary ex_state ''e1'' = 300"
  "totalAvailableCredit ex_state ''e1'' = 100"
  "manualAdjustments ex_state ''e1'' = 60"
  "\<forall>c. accepts ex_env c"
  "today ex_env = 10"
  "filter (\<lambda>entry. s_employeeId entry = ''e1'') (salaryEntries ex_state) =
     [ex_salary ''s1'' ''e1'' 6 200 20, ex_salary ''s3'' ''e1'' 5 100 10]"
  "updatedCreditEntries ex_state ''e1'' 60 =
     [ex_credit ''c4'' ''e2'' 2 40, ex_credit ''c2'' ''e1'' 2 20, ex_credit ''c3'' ''e1'' 3 20]"
  "js_sub 300 60 = 240"
  by (simp_all add: ex_state_def ex_env_def ex_salary_def ex_credit_def totalSalary_def
      totalSalaryOf_def totalAvailableCredit_def totalCreditOf_def updatedCreditEntries_def
      js_eval)

lemma ex_state_settled: "outcome (handleSettleSalary ex_env ex_state ''e1'' ''Asha'') = Settled"
  by (rule accepted_settles) (simp_all add: ex_state_run)

lemma ex_state_calls:
  "calls (handleSettleSalary ex_env ex_state ''e1'' ''Asha'') =
     [AddPaymentRecord
        \<lparr>n_employeeId = ''e1'', n_salaryAmount = 300, n_creditDeducted = 60,
         n_netPaid = 240, n_paymentDate = 10\<rparr>,
      RemoveSalaryEntry ''s1'', RemoveSalaryEntry ''s3'',
      UpdateCreditEntries
        [ex_credit ''c4'' ''e2'' 2 40, ex_credit ''c2'' ''e1'' 2 20,
         ex_credit ''c3'' ''e1'' 3 20]]"
  unfolding settled_run(5) [OF ex_state_settled] ex_state_run
  by (simp add: ex_salary_def)

lemma ex_state_again_fields:
  "employees ex_state_again = employees ex_state"
  "salaryEntries ex_state_again = [ex_salary ''s2'' ''e2'' 5 150 15]"
  "creditEntries ex_state_again =
     [ex_credit ''c4'' ''e2'' 2 40, ex_credit ''c2'' ''e1'' 2 20, ex_credit ''c3'' ''e1'' 3 20]"
  "manualAdjustments ex_state_again ''e1'' = 60"
proof -
  note run = settled_run [OF ex_state_settled]
  show "employees ex_state_again = employees ex_state"
    by (simp add: ex_state_again_def run(8))
  have "salaryEntries ex_state_again =
      filter (\<lambda>x. s_id x \<notin> s_id `
                     set (filter (\<lambda>entry. s_employeeId entry = ''e1'') (salaryEntries ex_state)))
             (salaryEntries ex_state)"
    by (simp add: ex_state_again_def run(6))
  then show "salaryEntries ex_state_again = [ex_salary ''s2'' ''e2'' 5 150 15]"
    unfolding ex_state_run by (simp add: ex_state_def ex_salary_def)
  show "creditEntries ex_state_again =
     [ex_credit ''c4'' ''e2'' 2 40, ex_credit ''c2'' ''e1'' 2 20, ex_credit ''c3'' ''e1'' 3 20]"
    by (simp add: ex_state_again_def run(7) ex_state_run)
  show "manualAdjustments ex_state_again ''e1'' = 60"
    by (simp add: ex_state_again_def)
qed

lemma totalSalaryOf_nil: "totalSalaryOf [] = 0"
  by (simp add: totalSalaryOf_def)

lemma removed_own:
  "filter P (filter (\<lambda>x. f x \<notin> f ` set (filter P xs)) xs) = []"
  by (rule filter_False) auto

text \<open>
  C4, amended. After a settlement that ended \<open>Settled\<close>, no salary entry of the employee
  remains and the employee's salary total is 0. A second settlement for the same employee
  with the same typed deduction \<open>D\<close>, on any state that has those salary entries (whatever
  its credit entries are after the reload), issues no store call, changes nothing and
  creates no payment record. It is rejected by the first check it fails: the credit cap
  of \<open>validateSettlement\<close> when \<open>D\<close> exceeds the employee's total available credit in
  that state, and the salary check (\<open>NoSalaryEntries\<close>) otherwise.
\<close>

theorem second_settlement_rejected:
  assumes "outcome (handleSettleSalary env st employeeId employeeName) = Settled"
    and "employees st2 = employees st"
    and "salaryEntries st2 =
           salaryEntries (final (handleSettleSalary env st employeeId employeeName))"
    and "manualAdjustments st2 employeeId = manualAdjustments st employeeId"
  shows "filter (\<lambda>entry. s_employeeId entry = employeeId) (salaryEntries st2) = []
       \<and> totalSalary st2 employeeId = 0
       \<and> calls (handleSettleSalary env2 st2 employeeId employeeName2) = []
       \<and> final (handleSettleSalary env2 st2 employeeId employeeName2) = st2
       \<and> outcome (handleSettleSalary env2 st2 employeeId employeeName2) =
           (if totalAvailableCredit st2 employeeId < manualAdjustments st employeeId
              then ValidationError
                     ''Manual credit adjustment cannot exceed total available credit''
            else NoSalaryEntries)"
proof -
  let ?r = "handleSettleSalary env st employeeId employeeName"
  note run = settled_run [OF assms(1)]
  have sal: "filter (\<lambda>entry. s_employeeId entry = employeeId) (salaryEntries st2) = []"
    unfolding assms(3) run(6) by (rule removed_own)
  then have s0: "totalSalary st2 employeeId = 0"
    by (simp add: totalSalary_def totalSalaryOf_nil)
  have emp: "employeeId \<in> e_id ` set (employees st2)"
    using run(1) by (simp add: assms(2))
  have n: "\<not> (employeeId \<in> e_id ` set (employees st2)
             \<and> 0 \<le> manualAdjustments st2 employeeId
             \<and> manualAdjustments st2 employeeId \<le> totalAvailableCredit st2 employeeId
             \<and> 0 < totalSalary st2 employeeId)"
    using s0 by simp
  from rejected_run [OF n, of env2 employeeName2] emp run(2) sal s0
  show ?thesis by (simp add: assms(4) not_less)
qed

text \<open>
  As first stated, C4 has the second settlement fail the salary check. In the example
  Asha's credit is 100 and the deduction 60: the second settlement fails the credit cap
  (60 > 40), and the salary check is never reached.
\<close>

theorem second_settlement_cap_check_counterexample:
  "outcome (handleSettleSalary ex_env ex_state ''e1'' ''Asha'') = Settled
   \<and> manualAdjustments ex_state_again ''e1'' = manualAdjustments ex_state ''e1''
   \<and> salaryEntries ex_state_again = [ex_salary ''s2'' ''e2'' 5 150 15]
   \<and> outcome (handleSettleSalary ex_env ex_state_again ''e1'' ''Asha'') =
       ValidationError ''Manual credit adjustment cannot exceed total available credit''
   \<and> outcome (handleSettleSalary ex_env ex_state_again ''e1'' ''Asha'') \<noteq> NoSalaryEntries"
proof -
  have c: "totalAvailableCredit ex_state_again ''e1'' = 40"
    by (simp add: totalAvailableCredit_def totalCreditOf_def ex_state_again_fields
        ex_credit_def js_eval)
  have n: "\<not> (''e1'' \<in> e_id ` set (employees ex_state_again)
             \<and> 0 \<le> manualAdjustments ex_state_again ''e1''
             \<and> manualAdjustments ex_state_again ''e1''
                 \<le> totalAvailableCredit ex_state_again ''e1''
             \<and> 0 < totalSalary ex_state_again ''e1'')"
    by (simp add: c ex_state_again_fields)
  have "outcome (handleSettleSalary ex_env ex_state_again ''e1'' ''Asha'') =
       ValidationError ''Manual credit adjustment cannot exceed total available credit''"
    unfolding rejected_run [OF n]
    by (simp add: c ex_state_again_fields ex_state_run)
  with ex_state_settled show ?thesis
    by (simp add: ex_state_again_fields ex_state_run)
qed

theorem second_settlement_rejected_witness:
  "outcome (handleSettleSalary ex_env ex_state ''e1'' ''Asha'') = Settled
   \<and> employees ex_state_again = employees ex_state
   \<and> salaryEntries ex_state_again =
       salaryEntries (final (handleSettleSalary ex_env ex_state ''e1'' ''Asha''))
   \<and> manualAdjustments ex_state_again ''e1'' = manualAdjustments ex_state ''e1''
   \<and> totalSalary ex_state_again ''e1'' = 0
   \<and> calls (handleSettleSalary ex_env ex_state_again ''e1'' ''Asha'') = []
   \<and> final (handleSettleSalary ex_env ex_state_again ''e1'' ''Asha'') = ex_state_again
   \<and> outcome (handleSettleSalary ex_env ex_state_again ''e1'' ''Asha'') =
       (if totalAvailableCredit ex_state_again ''e1'' < manualAdjustments ex_state ''e1''
          then ValidationError
                 ''Manual credit adjustment cannot exceed total available credit''
        else NoSalaryEntries)"
proof -
  have e: "employees ex_state_again = employees ex_state"
    by (rule ex_state_again_fields)
  have s: "salaryEntries ex_state_again =
       salaryEntries (final (handleSettleSalary ex_env ex_state ''e1'' ''Asha''))"
    by (simp add: ex_state_again_def)
  have d: "manualAdjustments ex_state_again ''e1'' = manualAdjustments ex_state ''e1''"
    by (simp add: ex_state_again_fields ex_state_run)
  from second_settlement_rejected [OF ex_state_settled e s d, of ex_env "''Asha''"]
    ex_state_settled e s d
  show ?thesis by blast
qed

text \<open>
  C5, amended. The store calls of one settlement are issued one after the other, each
  only after every earlier one has been accepted, in the order: the payment record, then
  the removal of each of the employee's salary entries, then the replacement of the
  credit collection. Every run issues a prefix of that sequence, and a run that ends
  \<open>Settled\<close> has issued all of it.
\<close>

theorem effects_issued_in_sequence:
  "prefix (calls (handleSettleSalary env st employeeId employeeName))
     (AddPaymentRecord
        \<lparr>n_employeeId = employeeId,
         n_salaryAmount = totalSalary st employeeId,
         n_creditDeducted = manualAdjustments st employeeId,
         n_netPaid = js_sub (totalSalary st employeeId) (manualAdjustments st employeeId),
         n_paymentDate = today env\<rparr>
      # map (\<lambda>e. RemoveSalaryEntry (s_id e))
          (filter (\<lambda>entry. s_employeeId entry = employeeId) (salaryEntries st))
      @ [UpdateCreditEntries
           (updatedCreditEntries st employeeId (manualAdjustments st employeeId))])
   \<and> (\<forall>c \<in> set (butlast (calls (handleSettleSalary env st employeeId employeeName))).
         accepts env c)
   \<and> (outcome (handleSettleSalary env st employeeId employeeName) = Settled \<longrightarrow>
        calls (handleSettleSalary env st employeeId employeeName) =
          AddPaymentRecord
            \<lparr>n_employeeId = employeeId,
             n_salaryAmount = totalSalary st employeeId,
             n_creditDeducted = manualAdjustments st employeeId,
             n_netPaid = js_sub (totalSalary st employeeId) (manualAdjustments st employeeId),
             n_paymentDate = today env\<rparr>
          # map (\<lambda>e. RemoveSalaryEntry (s_id e))
              (filter (\<lambda>entry. s_employeeId entry = employeeId) (salaryEntries st))
          @ [UpdateCreditEntries
               (updatedCreditEntries st employeeId (manualAdjustments st employeeId))]
        \<and> (\<forall>c \<in> set (calls (handleSettleSalary env st employeeId employeeName)).
              accepts env c))"
  using run_prefix [of env st employeeId employeeName]
    run_awaits [of env st employeeId employeeName]
    settled_run(5,10) [of env st employeeId employeeName]
  by blast

theorem effects_issued_in_sequence_witness:
  "outcome (handleSettleSalary ex_env ex_state ''e1'' ''Asha'') = Settled
   \<and> calls (handleSettleSalary ex_env ex_state ''e1'' ''Asha'') =
       [AddPaymentRecord
          \<lparr>n_employeeId = ''e1'', n_salaryAmount = 300, n_creditDeducted = 60,
           n_netPaid = 240, n_paymentDate = 10\<rparr>,
        RemoveSalaryEntry ''s1'', RemoveSalaryEntry ''s3'',
        UpdateCreditEntries
          [ex_credit ''c4'' ''e2'' 2 40, ex_credit ''c2'' ''e1'' 2 20,
           ex_credit ''c3'' ''e1'' 3 20]]"
proof -
  let ?r = "handleSettleSalary ex_env ex_state ''e1'' ''Asha''"
  from effects_issued_in_sequence [of ex_env ex_state "''e1''" "''Asha''"] ex_state_settled
  have "calls ?r =
          AddPaymentRecord
            \<lparr>n_employeeId = ''e1'',
             n_salaryAmount = totalSalary ex_state ''e1'',
             n_creditDeducted = manualAdjustments ex_state ''e1'',
             n_netPaid = js_sub (totalSalary ex_state ''e1'') (manualAdjustments ex_state ''e1''),
             n_paymentDate = today ex_env\<rparr>
          # map (\<lambda>e. RemoveSalaryEntry (s_id e))
              (filter (\<lambda>entry. s_employeeId entry = ''e1'') (salaryEntries ex_state))
          @ [UpdateCreditEntries
               (updatedCreditEntries ex_state ''e1'' (manualAdjustments ex_state ''e1''))]"
    by blast
  then have "calls ?r =
       [AddPaymentRecord
          \<lparr>n_employeeId = ''e1'', n_salaryAmount = 300, n_creditDeducted = 60,
           n_netPaid = 240, n_paymentDate = 10\<rparr>,
        RemoveSalaryEntry ''s1'', RemoveSalaryEntry ''s3'',
        UpdateCreditEntries
          [ex_credit ''c4'' ''e2'' 2 40, ex_credit ''c2'' ''e1'' 2 20,
           ex_credit ''c3'' ''e1'' 3 20]]"
    unfolding ex_state_run by (simp add: ex_salary_def)
  with ex_state_settled show ?thesis by simp
qed

text \<open>
  As first stated, C5 has the credit collection replaced before the salary entries are
  removed. In the example the two removals come second and third and the replacement
  last.
\<close>

theorem credit_replaced_last_counterexample:
  "outcome (handleSettleSalary ex_env ex_state ''e1'' ''Asha'') = Settled
   \<and> calls (handleSettleSalary ex_env ex_state ''e1'' ''Asha'') =
       [AddPaymentRecord
          \<lparr>n_employeeId = ''e1'', n_salaryAmount = 300, n_creditDeducted = 60,
           n_netPaid = 240, n_paymentDate = 10\<rparr>,
        RemoveSalaryEntry ''s1'', RemoveSalaryEntry ''s3'',
        UpdateCreditEntries
          [ex_credit ''c4'' ''e2'' 2 40, ex_credit ''c2'' ''e1'' 2 20,
           ex_credit ''c3'' ''e1'' 3 20]]
   \<and> calls (handleSettleSalary ex_env ex_state ''e1'' ''Asha'') \<noteq>
       [AddPaymentRecord
          \<lparr>n_employeeId = ''e1'', n_salaryAmount = 300, n_creditDeducted = 60,
           n_netPaid = 240, n_paymentDate = 10\<rparr>,
        UpdateCreditEntries
          [ex_credit ''c4'' ''e2'' 2 40, ex_credit ''c2'' ''e1'' 2 20,
           ex_credit ''c3'' ''e1'' 3 20],
        RemoveSalaryEntry ''s1'', RemoveSalaryEntry ''s3'']"
  using ex_state_settled by (simp add: ex_state_calls)

lemma removed_exactly_own:
  assumes "distinct (map f xs)"
  shows "filter (\<lambda>x. f x \<notin> f ` set (filter P xs)) xs = filter (\<lambda>x. \<not> P x) xs"
proof (rule filter_cong [OF refl])
  fix x
  assume x: "x \<in> set xs"
  from assms have inj: "inj_on f (set xs)"
    by (simp add: distinct_map)
  show "(f x \<notin> f ` set (filter P xs)) = (\<not> P x)"
  proof
    assume "f x \<notin> f ` set (filter P xs)"
    with x show "\<not> P x" by auto
  next
    assume n: "\<not> P x"
    show "f x \<notin> f ` set (filter P xs)"
    proof
      assume "f x \<in> f ` set (filter P xs)"
      then obtain y where y: "y \<in> set xs" "P y" "f x = f y" by auto
      with inj x have "x = y" by (simp add: inj_on_def)
      with n y(2) show False by simp
    qed
  qed
qed

text \<open>
  C6. A settlement of an employee that ended \<open>Settled\<close>, on salary entries whose ids are
  distinct (\<open>id\<close> is the primary key of the table), leaves exactly the salary entries of
  the other employees, unchanged and in their order. The collection that replaces the
  credit entries holds the other employees' entries unchanged, and the rows inserted for
  them carry the same employee_id, date, item_name and amount.
\<close>

theorem settlement_frame:
  assumes "outcome (handleSettleSalary env st employeeId employeeName) = Settled"
    and "distinct (map s_id (salaryEntries st))"
  shows "salaryEntries (final (handleSettleSalary env st employeeId employeeName)) =
           filter (\<lambda>entry. s_employeeId entry \<noteq> employeeId) (salaryEntries st)
       \<and> last (calls (handleSettleSalary env st employeeId employeeName)) =
           UpdateCreditEntries
             (creditEntries (final (handleSettleSalary env st employeeId employeeName)))
       \<and> filter (\<lambda>entry. c_employeeId entry \<noteq> employeeId)
           (creditEntries (final (handleSettleSalary env st employeeId employeeName))) =
           filter (\<lambda>entry. c_employeeId entry \<noteq> employeeId) (creditEntries st)
       \<and> filter (\<lambda>row. r_employee_id row \<noteq> employeeId)
           (insertedRows
              (creditEntries (final (handleSettleSalary env st employeeId employeeName)))) =
           insertedRows
             (filter (\<lambda>entry. c_employeeId entry \<noteq> employeeId) (creditEntries st))"
proof -
  note run = settled_run [OF assms(1)]
  have rows: "filter (\<lambda>row. r_employee_id row \<noteq> employeeId) (insertedRows entries) =
      insertedRows (filter (\<lambda>entry. c_employeeId entry \<noteq> employeeId) entries)" for entries
    by (induction entries) (simp_all add: insertedRows_def)
  have "salaryEntries (final (handleSettleSalary env st employeeId employeeName)) =
           filter (\<lambda>entry. s_employeeId entry \<noteq> employeeId) (salaryEntries st)"
    unfolding run(6)
    using removed_exactly_own [OF assms(2), of "\<lambda>entry. s_employeeId entry = employeeId"]
    by simp
  moreover have "last (calls (handleSettleSalary env st employeeId employeeName)) =
           UpdateCreditEntries
             (creditEntries (final (handleSettleSalary env st employeeId employeeName)))"
    unfolding run(5) run(7) by simp
  moreover have "filter (\<lambda>entry. c_employeeId entry \<noteq> employeeId)
           (creditEntries (final (handleSettleSalary env st employeeId employeeName))) =
           filter (\<lambda>entry. c_employeeId entry \<noteq> employeeId) (creditEntries st)"
    unfolding run(7) by (rule updated_other_employees)
  ultimately show ?thesis by (simp add: rows)
qed

theorem settlement_frame_witness:
  "outcome (handleSettleSalary ex_env ex_state ''e1'' ''Asha'') = Settled
   \<and> distinct (map s_id (salaryEntries ex_state))
   \<and> salaryEntries (final (handleSettleSalary ex_env ex_state ''e1'' ''Asha'')) =
       [ex_salary ''s2'' ''e2'' 5 150 15]
   \<and> filter (\<lambda>entry. c_employeeId entry \<noteq> ''e1'')
       (creditEntries (final (handleSettleSalary ex_env ex_state ''e1'' ''Asha''))) =
       [ex_credit ''c4'' ''e2'' 2 40]
   \<and> filter (\<lambda>row. r_employee_id row \<noteq> ''e1'')
       (insertedRows (creditEntries (final (handleSettleSalary ex_env ex_state ''e1'' ''Asha'')))) =
       [\<lparr>r_employee_id = ''e2'', r_date = 2, r_item_name = ''feed'', r_amount = 40\<rparr>]"
proof -
  have h: "outcome (handleSettleSalary ex_env ex_state ''e1'' ''Asha'') = Settled"
    by (rule ex_state_settled)
  have d: "distinct (map s_id (salaryEntries ex_state))"
    by (simp add: ex_state_def ex_salary_def)
  have e: "filter (\<lambda>entry. s_employeeId entry \<noteq> ''e1'') (salaryEntries ex_state) =
       [ex_salary ''s2'' ''e2'' 5 150 15]"
    "filter (\<lambda>entry. c_employeeId entry \<noteq> ''e1'') (creditEntries ex_state) =
       [ex_credit ''c4'' ''e2'' 2 40]"
    by (simp_all add: ex_state_def ex_salary_def ex_credit_def)
  have r: "insertedRows [ex_credit ''c4'' ''e2'' 2 40] =
       [\<lparr>r_employee_id = ''e2'', r_date = 2, r_item_name = ''feed'', r_amount = 40\<rparr>]"
    by (simp add: insertedRows_def ex_credit_def)
  from settlement_frame [OF h d] h d show ?thesis
    unfolding e r by blast
qed

text \<open>
  C7. A settlement with a typed deduction of 0 that ended \<open>Settled\<close> records a payment
  with \<open>netPaid\<close> equal to the employee's salary total, and the collection that replaces
  the credit entries holds every credit entry unchanged (the same multiset): the other
  employees' entries in their order, then the employee's own sorted by date.
\<close>

theorem zero_deduction_keeps_credit:
  assumes "manualAdjustments st employeeId = 0"
    and "outcome (handleSettleSalary env st employeeId employeeName) = Settled"
  shows "\<exists>p ids u.
           calls (handleSettleSalary env st employeeId employeeName) =
             AddPaymentRecord p # map RemoveSalaryEntry ids @ [UpdateCreditEntries u]
         \<and> n_netPaid p = totalSalary st employeeId
         \<and> n_creditDeducted p = 0
         \<and> creditEntries (final (handleSettleSalary env st employeeId employeeName)) = u
         \<and> mset u = mset (creditEntries st)
         \<and> filter (\<lambda>entry. c_employeeId entry = employeeId) u =
             sort_key c_date
               (filter (\<lambda>entry. c_employeeId entry = employeeId) (creditEntries st))
         \<and> filter (\<lambda>entry. c_employeeId entry \<noteq> employeeId) u =
             filter (\<lambda>entry. c_employeeId entry \<noteq> employeeId) (creditEntries st)"
proof -
  let ?r = "handleSettleSalary env st employeeId employeeName"
  let ?p = "\<lparr>n_employeeId = employeeId,
              n_salaryAmount = totalSalary st employeeId,
              n_creditDeducted = 0,
              n_netPaid = totalSalary st employeeId,
              n_paymentDate = today env\<rparr>"
  let ?ids = "map s_id (filter (\<lambda>entry. s_employeeId entry = employeeId) (salaryEntries st))"
  let ?u = "updatedCreditEntries st employeeId 0"
  note run = settled_run [OF assms(2)]
  have zero: "js_sub (totalSalary st employeeId) 0 = totalSalary st employeeId"
    by (simp add: js_sub_zero_right totalSalary_def totalSalaryOf_is_double)
  have c: "calls ?r = AddPaymentRecord ?p # map RemoveSalaryEntry ?ids @ [UpdateCreditEntries ?u]"
    using run(5) by (simp add: assms(1) zero comp_def)
  have f: "creditEntries (final ?r) = ?u"
    using run(7) by (simp add: assms(1))
  have own: "filter (\<lambda>entry. c_employeeId entry = employeeId) ?u =
             sort_key c_date
               (filter (\<lambda>entry. c_employeeId entry = employeeId) (creditEntries st))"
    by (simp add: updated_this_employee creditWalk_nonpos)
  show ?thesis
    by (rule exI [of _ ?p], rule exI [of _ ?ids], rule exI [of _ ?u])
      (simp add: c f own updated_zero updated_other_employees)
qed

theorem zero_deduction_keeps_credit_witness:
  "manualAdjustments (ex_state\<lparr>manualAdjustments := (\<lambda>employeeId. 0)\<rparr>) ''e1'' = 0
   \<and> outcome (handleSettleSalary ex_env (ex_state\<lparr>manualAdjustments := (\<lambda>employeeId. 0)\<rparr>)
                ''e1'' ''Asha'') = Settled
   \<and> (\<exists>p ids u.
         calls (handleSettleSalary ex_env (ex_state\<lparr>manualAdjustments := (\<lambda>employeeId. 0)\<rparr>)
                  ''e1'' ''Asha'') =
           AddPaymentRecord p # map RemoveSalaryEntry ids @ [UpdateCreditEntries u]
       \<and> n_netPaid p = 300
       \<and> mset u = mset (creditEntries ex_state))"
proof -
  let ?st = "ex_state\<lparr>manualAdjustments := (\<lambda>employeeId. 0)\<rparr>"
  have z: "manualAdjustments ?st ''e1'' = 0"
    by simp
  have s: "totalSalary ?st ''e1'' = 300"
    by (simp add: ex_state_def ex_salary_def totalSalary_def totalSalaryOf_def js_eval)
  have c: "totalAvailableCredit ?st ''e1'' = 100"
    by (simp add: ex_state_def ex_credit_def totalAvailableCredit_def totalCreditOf_def js_eval)
  have h: "outcome (handleSettleSalary ex_env ?st ''e1'' ''Asha'') = Settled"
  proof (rule accepted_settles [OF _ _ _ _ ex_state_run(5)])
    show "''e1'' \<in> e_id ` set (employees ?st)" using ex_state_run(1) by simp
  qed (simp_all add: s c)
  from zero_deduction_keeps_credit [OF z h] obtain p ids u where
    "calls (handleSettleSalary ex_env ?st ''e1'' ''Asha'') =
       AddPaymentRecord p # map RemoveSalaryEntry ids @ [UpdateCreditEntries u]"
    "n_netPaid p = totalSalary ?st ''e1''"
    "mset u = mset (creditEntries ?st)"
    by blast
  then have "\<exists>p ids u.
         calls (handleSettleSalary ex_env ?st ''e1'' ''Asha'') =
           AddPaymentRecord p # map RemoveSalaryEntry ids @ [UpdateCreditEntries u]
       \<and> n_netPaid p = 300
       \<and> mset u = mset (creditEntries ex_state)"
    unfolding s by auto
  with z h show ?thesis by blast
qed

lemma avgSalaryPerEntry_finite:
  "\<exists>q. ps_avgSalaryPerEntry (summarize st employee) = Fin q"
  by (simp add: summarize_def Let_def js_div_def)

lemma rateCell_Summary_finite: "\<exists>q. rateCell_Summary entry = Fin q"
  by (simp add: rateCell_Summary_def js_div_def)

text \<open>
  C8. The claim is that every division of the aggregation logic yields 0 on a zero
  denominator. The average salary per entry and the rate cell of the Summary page are
  guarded (the two lemmas above). The Rate/L cell of Salary10Day divides without a guard:
  for an entry with 0 liters it is \<open>Infinity\<close> when the amount is positive and \<open>NaN\<close>
  when the amount is 0, where the Summary page shows 0 for the same entry.
\<close>

theorem rateCell_Salary10Day_zero_liters:
  "rateCell_Salary10Day (ex_salary ''s4'' ''e1'' 7 100 0) = PosInf
   \<and> rateCell_Salary10Day (ex_salary ''s5'' ''e1'' 7 0 0) = NaN
   \<and> rateCell_Summary (ex_salary ''s4'' ''e1'' 7 100 0) = Fin 0"
  by (simp add: rateCell_Salary10Day_def rateCell_Summary_def js_div_def ex_salary_def)






text \<open>
  C10. If every credit entry has a positive amount and the typed deduction \<open>D\<close> satisfies
  \<open>0 \<le> D \<le>\<close> the employee's credit total, then every entry of the recomputed
  collection has a positive amount, and so has every collection a run passes to
  \<open>updateCreditEntries\<close>. A reduced entry has an amount above the positive remainder, and
  the rounded difference of two distinct doubles is not zero.
\<close>

theorem settlement_keeps_credit_positive:
  assumes "\<forall>entry \<in> set (creditEntries st). 0 < c_amount entry"
    and "0 \<le> manualAdjustments st employeeId"
    and "manualAdjustments st employeeId \<le> totalAvailableCredit st employeeId"
  shows "(\<forall>entry \<in> set (updatedCreditEntries st employeeId (manualAdjustments st employeeId)).
            0 < c_amount entry)
       \<and> (\<forall>u. UpdateCreditEntries u \<in> set (calls (handleSettleSalary env st employeeId employeeName))
              \<longrightarrow> (\<forall>entry \<in> set u. 0 < c_amount entry))"
proof -
  let ?r = "handleSettleSalary env st employeeId employeeName"
  let ?u = "updatedCreditEntries st employeeId (manualAdjustments st employeeId)"
  have pos: "\<forall>entry \<in> set ?u. 0 < c_amount entry"
    using updated_positive [OF assms(1)] by blast
  have "\<forall>entry \<in> set u. 0 < c_amount entry" if "UpdateCreditEntries u \<in> set (calls ?r)" for u
    using update_call(1) [OF that] pos by simp
  then show ?thesis using pos by blast
qed

theorem settlement_keeps_credit_positive_witness:
  "map c_amount (creditEntries ex_state) = [20, 30, 40, 50]
   \<and> 0 \<le> manualAdjustments ex_state ''e1''
   \<and> manualAdjustments ex_state ''e1'' \<le> totalAvailableCredit ex_state ''e1''
   \<and> updatedCreditEntries ex_state ''e1'' (manualAdjustments ex_state ''e1'') =
       [ex_credit ''c4'' ''e2'' 2 40, ex_credit ''c2'' ''e1'' 2 20, ex_credit ''c3'' ''e1'' 3 20]
   \<and> list_all (\<lambda>entry. 0 < c_amount entry)
       (updatedCreditEntries ex_state ''e1'' (manualAdjustments ex_state ''e1''))
   \<and> UpdateCreditEntries
         (updatedCreditEntries ex_state ''e1'' (manualAdjustments ex_state ''e1''))
       \<in> set (calls (handleSettleSalary ex_env ex_state ''e1'' ''Asha''))"
proof -
  have a: "map c_amount (creditEntries ex_state) = [20, 30, 40, 50]"
    by (simp add: ex_state_def ex_credit_def)
  have p: "\<forall>entry \<in> set (creditEntries ex_state). 0 < c_amount entry"
    by (simp add: ex_state_def ex_credit_def)
  have d: "0 \<le> manualAdjustments ex_state ''e1''"
    by (simp add: ex_state_run)
  have c: "manualAdjustments ex_state ''e1'' \<le> totalAvailableCredit ex_state ''e1''"
    by (simp add: ex_state_run)
  have u: "updatedCreditEntries ex_state ''e1'' (manualAdjustments ex_state ''e1'') =
       [ex_credit ''c4'' ''e2'' 2 40, ex_credit ''c2'' ''e1'' 2 20, ex_credit ''c3'' ''e1'' 3 20]"
    by (simp add: ex_state_run)
  have k: "UpdateCreditEntries
         (updatedCreditEntries ex_state ''e1'' (manualAdjustments ex_state ''e1''))
       \<in> set (calls (handleSettleSalary ex_env ex_state ''e1'' ''Asha''))"
    unfolding u by (simp add: ex_state_calls)
  from settlement_keeps_credit_positive [OF p d c, of ex_env "''Asha''"]
  have "list_all (\<lambda>entry. 0 < c_amount entry)
          (updatedCreditEntries ex_state ''e1'' (manualAdjustments ex_state ''e1''))"
    unfolding list_all_iff by blast
  with a d c u k show ?thesis by blast
qed

end
